theory Spec2Isabelle
  imports Complex_Main "HOL-Library.Multiset"
begin

section \<open>JavaScript values of a request body\<close>

text \<open>
  \<^verbatim>\<open>express.json()\<close> parses the request body, so the values the handlers of
  \<^verbatim>\<open>server.js\<close> see are JSON values, and \<^verbatim>\<open>undefined\<close> where a property is
  missing. A JSON number is a decimal fraction, so it is a rational here; \<^verbatim>\<open>NaN\<close>
  cannot be written in JSON.
\<close>

datatype jsval =
    JUndefined
  | JNull
  | JBool bool
  | JNum rat
  | JStr string
  | JArr "jsval list"
  | JObj "(string \<times> jsval) list"

text \<open>
  Reading a property \<^verbatim>\<open>v.k\<close>, and destructuring \<^verbatim>\<open>const { k } = v\<close>: a TypeError on
  \<^verbatim>\<open>undefined\<close> and \<^verbatim>\<open>null\<close>, the stored value on an object, \<^verbatim>\<open>undefined\<close> on
  everything else. The handlers read only \<^verbatim>\<open>boxId\<close>, \<^verbatim>\<open>temperature\<close>,
  \<^verbatim>\<open>humidity\<close>, \<^verbatim>\<open>compartmentStatus\<close>, \<^verbatim>\<open>scheduleId\<close>, \<^verbatim>\<open>id\<close> and
  \<^verbatim>\<open>isOpen\<close>, none of which a string, number, boolean or array has.
\<close>

fun js_get :: "jsval \<Rightarrow> string \<Rightarrow> string + jsval" where
  "js_get JUndefined k = Inl ''TypeError: cannot read properties of undefined''"
| "js_get JNull k = Inl ''TypeError: cannot read properties of null''"
| "js_get (JObj kvs) k = Inr (case map_of kvs k of None \<Rightarrow> JUndefined | Some v \<Rightarrow> v)"
| "js_get v k = Inr JUndefined"

text \<open>The value a condition sees: \<^verbatim>\<open>v ? a : b\<close>, \<^verbatim>\<open>v && w\<close>, \<^verbatim>\<open>if (v)\<close>.\<close>

fun truthy :: "jsval \<Rightarrow> bool" where
  "truthy JUndefined = False"
| "truthy JNull = False"
| "truthy (JBool b) = b"
| "truthy (JNum n) = (n \<noteq> 0)"
| "truthy (JStr s) = (s \<noteq> [])"
| "truthy (JArr xs) = True"
| "truthy (JObj kvs) = True"

fun isArray :: "jsval \<Rightarrow> bool" where
  "isArray (JArr xs) = True"
| "isArray v = False"

fun elements :: "jsval \<Rightarrow> jsval list" where
  "elements (JArr xs) = xs"
| "elements v = []"

section \<open>The store\<close>

text \<open>
  The three tables the statements of \<^verbatim>\<open>server.js\<close> name, each a list of rows in
  insertion order. A column that a handler fills from a bound parameter holds the bound
  value; a column filled by \<^verbatim>\<open>NOW()\<close> holds the store's clock, in seconds.
\<close>

record sensor_log =
  sl_box_id :: jsval
  sl_temperature :: jsval
  sl_humidity :: jsval
  sl_timestamp :: int

record compartment_row =
  cs_box_id :: jsval
  cs_compartment_id :: jsval
  cs_is_open :: int
  cs_timestamp :: int

record schedule_row =
  ms_id :: jsval
  ms_box_id :: jsval
  ms_scheduled_time :: int
  ms_is_taken :: int
  ms_taken_time :: "int option"

record database =
  sensor_logs :: "sensor_log list"
  compartment_status :: "compartment_row list"
  medication_schedule :: "schedule_row list"

text \<open>
  SQL's \<^verbatim>\<open>column = ?\<close>: a comparison with NULL selects nothing, and the connector binds
  \<^verbatim>\<open>undefined\<close> and \<^verbatim>\<open>null\<close> as NULL. Two values that are not NULL are equal when
  they are the same value; the table definitions are not part of \<^verbatim>\<open>server.js\<close>, so the
  engine's conversions between column types (a number compared with a string of its
  digits) are left out.
\<close>

fun is_sql_null :: "jsval \<Rightarrow> bool" where
  "is_sql_null JUndefined = True"
| "is_sql_null JNull = True"
| "is_sql_null v = False"

definition sql_eq :: "jsval \<Rightarrow> jsval \<Rightarrow> bool" where
  "sql_eq a b = (\<not> is_sql_null a \<and> \<not> is_sql_null b \<and> a = b)"

text \<open>
  \<^verbatim>\<open>ORDER BY k ASC\<close> and \<^verbatim>\<open>ORDER BY k DESC\<close>. Rows with equal keys stay in
  insertion order. The engine may order them otherwise, so the theorems about the
  queries state what holds for every such order: which rows are returned, up to rows
  with equal keys, and that they are sorted.
\<close>

definition order_by_asc :: "('r \<Rightarrow> int) \<Rightarrow> 'r list \<Rightarrow> 'r list" where
  "order_by_asc k rows = sort_key k rows"

definition order_by_desc :: "('r \<Rightarrow> int) \<Rightarrow> 'r list \<Rightarrow> 'r list" where
  "order_by_desc k rows = sort_key (\<lambda>r. - k r) rows"

text \<open>\<^verbatim>\<open>INTERVAL 24 HOUR\<close>, in seconds.\<close>

definition interval_24_hour :: int where
  "interval_24_hour = 24 * 3600"

subsection \<open>The eight statements\<close>

text \<open>
  \<^verbatim>\<open>INSERT INTO sensor_logs (box_id, temperature, humidity, timestamp)
  VALUES (?, ?, ?, NOW())\<close>
\<close>

definition insert_sensor_log :: "jsval \<Rightarrow> jsval \<Rightarrow> jsval \<Rightarrow> int \<Rightarrow> database \<Rightarrow> unit \<times> database" where
  "insert_sensor_log boxId temperature humidity now d =
     ((), d\<lparr>sensor_logs := sensor_logs d @
        [\<lparr>sl_box_id = boxId, sl_temperature = temperature, sl_humidity = humidity,
          sl_timestamp = now\<rparr>]\<rparr>)"

text \<open>
  \<^verbatim>\<open>INSERT INTO compartment_status (box_id, compartment_id, is_open, timestamp)
  VALUES (?, ?, ?, NOW())\<close>
\<close>

definition insert_compartment_status :: "jsval \<Rightarrow> jsval \<Rightarrow> int \<Rightarrow> int \<Rightarrow> database \<Rightarrow> unit \<times> database" where
  "insert_compartment_status boxId compartmentId isOpen now d =
     ((), d\<lparr>compartment_status := compartment_status d @
        [\<lparr>cs_box_id = boxId, cs_compartment_id = compartmentId, cs_is_open = isOpen,
          cs_timestamp = now\<rparr>]\<rparr>)"

text \<open>\<^verbatim>\<open>SELECT * FROM sensor_logs WHERE box_id = ? ORDER BY timestamp DESC LIMIT 1\<close>\<close>

definition select_latest_sensor :: "string \<Rightarrow> int \<Rightarrow> database \<Rightarrow> sensor_log list \<times> database" where
  "select_latest_sensor boxId now d =
     (take 1 (order_by_desc sl_timestamp
        (filter (\<lambda>r. sql_eq (sl_box_id r) (JStr boxId)) (sensor_logs d))), d)"

text \<open>\<^verbatim>\<open>SELECT * FROM compartment_status WHERE box_id = ? ORDER BY timestamp DESC LIMIT 4\<close>\<close>

definition select_latest_compartments :: "string \<Rightarrow> int \<Rightarrow> database \<Rightarrow> compartment_row list \<times> database" where
  "select_latest_compartments boxId now d =
     (take 4 (order_by_desc cs_timestamp
        (filter (\<lambda>r. sql_eq (cs_box_id r) (JStr boxId)) (compartment_status d))), d)"

text \<open>
  \<^verbatim>\<open>SELECT * FROM sensor_logs
  WHERE box_id = ? AND timestamp > DATE_SUB(NOW(), INTERVAL 24 HOUR)
  ORDER BY timestamp DESC\<close>
\<close>

definition select_history :: "string \<Rightarrow> int \<Rightarrow> database \<Rightarrow> sensor_log list \<times> database" where
  "select_history boxId now d =
     (order_by_desc sl_timestamp
        (filter (\<lambda>r. sql_eq (sl_box_id r) (JStr boxId) \<and> sl_timestamp r > now - interval_24_hour)
           (sensor_logs d)), d)"

text \<open>
  \<^verbatim>\<open>SELECT * FROM medication_schedule WHERE box_id = ? AND is_taken = 0
  ORDER BY scheduled_time ASC\<close>
\<close>

definition select_schedule :: "string \<Rightarrow> int \<Rightarrow> database \<Rightarrow> schedule_row list \<times> database" where
  "select_schedule boxId now d =
     (order_by_asc ms_scheduled_time
        (filter (\<lambda>r. sql_eq (ms_box_id r) (JStr boxId) \<and> ms_is_taken r = 0)
           (medication_schedule d)), d)"

text \<open>\<^verbatim>\<open>UPDATE medication_schedule SET is_taken = 1, taken_time = NOW() WHERE id = ?\<close>\<close>

definition update_complete :: "jsval \<Rightarrow> int \<Rightarrow> database \<Rightarrow> unit \<times> database" where
  "update_complete scheduleId now d =
     ((), d\<lparr>medication_schedule :=
        map (\<lambda>r. if sql_eq (ms_id r) scheduleId
                  then r\<lparr>ms_is_taken := 1, ms_taken_time := Some now\<rparr> else r)
            (medication_schedule d)\<rparr>)"

text \<open>\<^verbatim>\<open>SELECT * FROM medication_schedule WHERE box_id = ? ORDER BY scheduled_time DESC\<close>\<close>

definition select_medication_history :: "string \<Rightarrow> int \<Rightarrow> database \<Rightarrow> schedule_row list \<times> database" where
  "select_medication_history boxId now d =
     (order_by_desc ms_scheduled_time
        (filter (\<lambda>r. sql_eq (ms_box_id r) (JStr boxId)) (medication_schedule d)), d)"

section \<open>The pool, the connection and what the store may do\<close>

text \<open>
  What a handler does to the outside: it borrows a connection, sends statements on it,
  and gives it back. The trace records these in order, each with the connection it
  happened on.
\<close>

datatype stmt =
    Insert_sensor_log jsval jsval jsval
  | Insert_compartment_status jsval jsval int
  | Select_latest_sensor string
  | Select_latest_compartments string
  | Select_history string
  | Select_schedule string
  | Update_complete jsval
  | Select_medication_history string

datatype event = Acquire nat | Query nat stmt | Release nat

text \<open>
  The pool of \<^verbatim>\<open>mariadb.createPool\<close>: the connections at rest and the borrowed ones.
\<close>

record world =
  db :: database
  idle :: "nat list"
  leased :: "nat list"
  trace :: "event list"

text \<open>
  What the store does during one handler invocation is not the handler's choice: whether
  \<^verbatim>\<open>pool.getConnection()\<close> rejects, whether the \<open>k\<close>-th statement of the invocation
  (counted from 0) rejects and with which message, and the value of \<^verbatim>\<open>NOW()\<close> when
  the \<open>k\<close>-th statement runs.
\<close>

record env =
  acquire_err :: "string option"
  query_err :: "nat \<Rightarrow> string option"
  now_at :: "nat \<Rightarrow> int"

text \<open>
  \<^verbatim>\<open>await pool.getConnection()\<close>. With no connection at rest the request waits; handlers
  run one at a time here, so nothing is given back while it waits and it times out.
\<close>

definition getConnection :: "env \<Rightarrow> world \<Rightarrow> (string + nat) \<times> world" where
  "getConnection e w =
     (case acquire_err e of
        Some msg \<Rightarrow> (Inl msg, w)
      | None \<Rightarrow>
          (case idle w of
             [] \<Rightarrow> (Inl ''retrieve connection from pool timeout'', w)
           | c # cs \<Rightarrow>
               (Inr c, w\<lparr>idle := cs, leased := c # leased w,
                          trace := trace w @ [Acquire c]\<rparr>)))"

text \<open>\<^verbatim>\<open>conn.release()\<close>\<close>

definition release :: "nat \<Rightarrow> world \<Rightarrow> world" where
  "release c w =
     w\<lparr>idle := idle w @ [c], leased := remove1 c (leased w), trace := trace w @ [Release c]\<rparr>"

text \<open>
  \<^verbatim>\<open>await conn.query(sql, params)\<close>, the \<open>k\<close>-th statement of the invocation: it is sent
  on connection \<open>c\<close>; when the store rejects it the table is as before and the message is
  thrown, otherwise \<open>run\<close>, the meaning of the statement, is applied at the store's
  clock.
\<close>

definition conn_query ::
  "env \<Rightarrow> nat \<Rightarrow> nat \<Rightarrow> stmt \<Rightarrow> (int \<Rightarrow> database \<Rightarrow> 'a \<times> database) \<Rightarrow> world \<Rightarrow> (string + 'a) \<times> world" where
  "conn_query e k c s run w =
     (let w1 = w\<lparr>trace := trace w @ [Query c s]\<rparr> in
      case query_err e k of
        Some msg \<Rightarrow> (Inl msg, w1)
      | None \<Rightarrow> (let (r, d) = run (now_at e k) (db w1) in (Inr r, w1\<lparr>db := d\<rparr>)))"

section \<open>The handlers\<close>

text \<open>
  The handlers of \<^verbatim>\<open>server.js\<close> that use the store. What they write with
  \<^verbatim>\<open>console.log\<close> and \<^verbatim>\<open>console.error\<close> is left out.

  What \<^verbatim>\<open>res.json\<close> sends. \<open>Ack\<close> is \<^verbatim>\<open>{ success: true, message }\<close>, \<open>Failure\<close> is
  status 500 with \<^verbatim>\<open>{ success: false, error: error.message }\<close>, the others are
  \<^verbatim>\<open>{ success: true, sensor, compartments }\<close> and \<^verbatim>\<open>{ success: true, data }\<close>.
\<close>

datatype response =
    Ack string
  | Failure string
  | Latest "sensor_log option" "compartment_row list"
  | Sensor_data "sensor_log list"
  | Schedule_data "schedule_row list"

text \<open>
  Every handler has the same frame:
  \<^verbatim>\<open>let conn; try { ... } catch (error) { res.status(500).json(...) }
  finally { if (conn) conn.release(); }\<close>.
  The body of \<^verbatim>\<open>try\<close> gives what it threw or sent, the value of \<^verbatim>\<open>conn\<close> when it
  stopped, and the world.
\<close>

definition catch_finally :: "(string + response) \<times> nat option \<times> world \<Rightarrow> response \<times> world" where
  "catch_finally t =
     (case t of (r, conn, w) \<Rightarrow>
        (case r of Inl msg \<Rightarrow> Failure msg | Inr sent \<Rightarrow> sent,
         case conn of None \<Rightarrow> w | Some c \<Rightarrow> release c w))"

subsection \<open>POST /api/sensor-data\<close>

text \<open>
  \<^verbatim>\<open>for (const compartment of compartmentStatus) { await conn.query(INSERT ...,
  [boxId, compartment.id, compartment.isOpen ? 1 : 0]); }\<close>, the first statement of the
  loop being the \<open>k\<close>-th of the invocation.
\<close>

fun insert_compartments :: "env \<Rightarrow> nat \<Rightarrow> nat \<Rightarrow> jsval \<Rightarrow> jsval list \<Rightarrow> world \<Rightarrow> (string + unit) \<times> world" where
  "insert_compartments e k c boxId [] w = (Inr (), w)"
| "insert_compartments e k c boxId (compartment # rest) w =
     (case js_get compartment ''id'' of
        Inl msg \<Rightarrow> (Inl msg, w)
      | Inr cid \<Rightarrow>
          (case js_get compartment ''isOpen'' of
             Inl msg \<Rightarrow> (Inl msg, w)
           | Inr isOpen \<Rightarrow>
               (case conn_query e k c
                       (Insert_compartment_status boxId cid (if truthy isOpen then 1 else 0))
                       (insert_compartment_status boxId cid (if truthy isOpen then 1 else 0)) w of
                  (Inl msg, w1) \<Rightarrow> (Inl msg, w1)
                | (Inr u, w1) \<Rightarrow> insert_compartments e (Suc k) c boxId rest w1)))"

definition sensor_data_try :: "env \<Rightarrow> jsval \<Rightarrow> world \<Rightarrow> (string + response) \<times> nat option \<times> world" where
  "sensor_data_try e body w =
     (case js_get body ''boxId'' of
        Inl msg \<Rightarrow> (Inl msg, None, w)
      | Inr boxId \<Rightarrow>
     (case js_get body ''temperature'' of
        Inl msg \<Rightarrow> (Inl msg, None, w)
      | Inr temperature \<Rightarrow>
     (case js_get body ''humidity'' of
        Inl msg \<Rightarrow> (Inl msg, None, w)
      | Inr humidity \<Rightarrow>
     (case js_get body ''compartmentStatus'' of
        Inl msg \<Rightarrow> (Inl msg, None, w)
      | Inr compartmentStatus \<Rightarrow>
     (case getConnection e w of
        (Inl msg, w1) \<Rightarrow> (Inl msg, None, w1)
      | (Inr c, w1) \<Rightarrow>
     (case conn_query e 0 c (Insert_sensor_log boxId temperature humidity)
             (insert_sensor_log boxId temperature humidity) w1 of
        (Inl msg, w2) \<Rightarrow> (Inl msg, Some c, w2)
      | (Inr u, w2) \<Rightarrow>
     (case (if truthy compartmentStatus \<and> isArray compartmentStatus
            then insert_compartments e 1 c boxId (elements compartmentStatus) w2
            else (Inr (), w2)) of
        (Inl msg, w3) \<Rightarrow> (Inl msg, Some c, w3)
      | (Inr u, w3) \<Rightarrow> (Inr (Ack ''Data received successfully''), Some c, w3))))))))"

definition sensor_data_handler :: "env \<Rightarrow> jsval \<Rightarrow> world \<Rightarrow> response \<times> world" where
  "sensor_data_handler e body w = catch_finally (sensor_data_try e body w)"

subsection \<open>GET /api/sensor-data/latest/:boxId\<close>

text \<open>
  \<^verbatim>\<open>req.params\<close> is always an object and \<^verbatim>\<open>boxId\<close> a string of the path, so the
  destructuring cannot throw. \<^verbatim>\<open>sensorData[0] || null\<close> is the first row or null (a
  row is truthy); \<^verbatim>\<open>compartmentData || []\<close> is the rows (an array is truthy).
\<close>

definition latest_try :: "env \<Rightarrow> string \<Rightarrow> world \<Rightarrow> (string + response) \<times> nat option \<times> world" where
  "latest_try e boxId w =
     (case getConnection e w of
        (Inl msg, w1) \<Rightarrow> (Inl msg, None, w1)
      | (Inr c, w1) \<Rightarrow>
     (case conn_query e 0 c (Select_latest_sensor boxId) (select_latest_sensor boxId) w1 of
        (Inl msg, w2) \<Rightarrow> (Inl msg, Some c, w2)
      | (Inr sensorData, w2) \<Rightarrow>
     (case conn_query e 1 c (Select_latest_compartments boxId)
             (select_latest_compartments boxId) w2 of
        (Inl msg, w3) \<Rightarrow> (Inl msg, Some c, w3)
      | (Inr compartmentData, w3) \<Rightarrow>
          (Inr (Latest (case sensorData of [] \<Rightarrow> None | r # rs \<Rightarrow> Some r) compartmentData),
           Some c, w3))))"

definition latest_handler :: "env \<Rightarrow> string \<Rightarrow> world \<Rightarrow> response \<times> world" where
  "latest_handler e boxId w = catch_finally (latest_try e boxId w)"

subsection \<open>GET /api/sensor-data/history/:boxId\<close>

definition history_try :: "env \<Rightarrow> string \<Rightarrow> world \<Rightarrow> (string + response) \<times> nat option \<times> world" where
  "history_try e boxId w =
     (case getConnection e w of
        (Inl msg, w1) \<Rightarrow> (Inl msg, None, w1)
      | (Inr c, w1) \<Rightarrow>
     (case conn_query e 0 c (Select_history boxId) (select_history boxId) w1 of
        (Inl msg, w2) \<Rightarrow> (Inl msg, Some c, w2)
      | (Inr history, w2) \<Rightarrow> (Inr (Sensor_data history), Some c, w2)))"

definition history_handler :: "env \<Rightarrow> string \<Rightarrow> world \<Rightarrow> response \<times> world" where
  "history_handler e boxId w = catch_finally (history_try e boxId w)"

subsection \<open>GET /api/medication-schedule/:boxId\<close>

definition schedule_try :: "env \<Rightarrow> string \<Rightarrow> world \<Rightarrow> (string + response) \<times> nat option \<times> world" where
  "schedule_try e boxId w =
     (case getConnection e w of
        (Inl msg, w1) \<Rightarrow> (Inl msg, None, w1)
      | (Inr c, w1) \<Rightarrow>
     (case conn_query e 0 c (Select_schedule boxId) (select_schedule boxId) w1 of
        (Inl msg, w2) \<Rightarrow> (Inl msg, Some c, w2)
      | (Inr schedules, w2) \<Rightarrow> (Inr (Schedule_data schedules), Some c, w2)))"

definition schedule_handler :: "env \<Rightarrow> string \<Rightarrow> world \<Rightarrow> response \<times> world" where
  "schedule_handler e boxId w = catch_finally (schedule_try e boxId w)"

subsection \<open>POST /api/medication-schedule/complete\<close>

definition complete_try :: "env \<Rightarrow> jsval \<Rightarrow> world \<Rightarrow> (string + response) \<times> nat option \<times> world" where
  "complete_try e body w =
     (case js_get body ''scheduleId'' of
        Inl msg \<Rightarrow> (Inl msg, None, w)
      | Inr scheduleId \<Rightarrow>
     (case getConnection e w of
        (Inl msg, w1) \<Rightarrow> (Inl msg, None, w1)
      | (Inr c, w1) \<Rightarrow>
     (case conn_query e 0 c (Update_complete scheduleId) (update_complete scheduleId) w1 of
        (Inl msg, w2) \<Rightarrow> (Inl msg, Some c, w2)
      | (Inr u, w2) \<Rightarrow> (Inr (Ack ''Medication marked as taken''), Some c, w2))))"

definition complete_handler :: "env \<Rightarrow> jsval \<Rightarrow> world \<Rightarrow> response \<times> world" where
  "complete_handler e body w = catch_finally (complete_try e body w)"

subsection \<open>GET /api/medication-history/:boxId\<close>

definition medication_history_try :: "env \<Rightarrow> string \<Rightarrow> world \<Rightarrow> (string + response) \<times> nat option \<times> world" where
  "medication_history_try e boxId w =
     (case getConnection e w of
        (Inl msg, w1) \<Rightarrow> (Inl msg, None, w1)
      | (Inr c, w1) \<Rightarrow>
     (case conn_query e 0 c (Select_medication_history boxId)
             (select_medication_history boxId) w1 of
        (Inl msg, w2) \<Rightarrow> (Inl msg, Some c, w2)
      | (Inr history, w2) \<Rightarrow> (Inr (Schedule_data history), Some c, w2)))"

definition medication_history_handler :: "env \<Rightarrow> string \<Rightarrow> world \<Rightarrow> response \<times> world" where
  "medication_history_handler e boxId w = catch_finally (medication_history_try e boxId w)"

section \<open>Vocabulary of the properties\<close>

text \<open>
  The values the ingestion handler binds, read off a request body: \<open>js_prop\<close> is
  \<open>js_get\<close> where it does not throw.
\<close>

definition nullish :: "jsval \<Rightarrow> bool" where
  "nullish v = (v = JUndefined \<or> v = JNull)"

definition js_prop :: "jsval \<Rightarrow> string \<Rightarrow> jsval" where
  "js_prop v k = (case js_get v k of Inl msg \<Rightarrow> JUndefined | Inr x \<Rightarrow> x)"

definition is_open_of :: "jsval \<Rightarrow> int" where
  "is_open_of x = (if truthy (js_prop x ''isOpen'') then 1 else 0)"

text \<open>The row and the statement of the \<open>k\<close>-th statement, for compartment report \<open>x\<close>.\<close>

definition compartment_row_of :: "env \<Rightarrow> jsval \<Rightarrow> nat \<times> jsval \<Rightarrow> compartment_row" where
  "compartment_row_of e boxId kx =
     \<lparr>cs_box_id = boxId, cs_compartment_id = js_prop (snd kx) ''id'',
      cs_is_open = is_open_of (snd kx), cs_timestamp = now_at e (fst kx)\<rparr>"

definition compartment_query :: "nat \<Rightarrow> jsval \<Rightarrow> jsval \<Rightarrow> event" where
  "compartment_query c boxId x =
     Query c (Insert_compartment_status boxId (js_prop x ''id'') (is_open_of x))"

definition reading_row_of :: "env \<Rightarrow> jsval \<Rightarrow> sensor_log" where
  "reading_row_of e body =
     \<lparr>sl_box_id = js_prop body ''boxId'', sl_temperature = js_prop body ''temperature'',
      sl_humidity = js_prop body ''humidity'', sl_timestamp = now_at e 0\<rparr>"

definition reading_query :: "nat \<Rightarrow> jsval \<Rightarrow> event" where
  "reading_query c body =
     Query c (Insert_sensor_log (js_prop body ''boxId'') (js_prop body ''temperature'')
                (js_prop body ''humidity''))"

text \<open>
  The supplied compartment sequence: the elements of \<^verbatim>\<open>compartmentStatus\<close> when it is an
  array, no element when it is absent or anything else.
\<close>

definition compartments_of :: "jsval \<Rightarrow> jsval list" where
  "compartments_of body = elements (js_prop body ''compartmentStatus'')"

text \<open>
  A trace of one invocation is a scoped use of the pool when it is empty, or borrows one
  connection first, gives that connection back last, and in between only sends
  statements on it.
\<close>

fun is_query_on :: "nat \<Rightarrow> event \<Rightarrow> bool" where
  "is_query_on c (Query c' s) = (c' = c)"
| "is_query_on c ev = False"

fun scoped_use :: "event list \<Rightarrow> bool" where
  "scoped_use [] = True"
| "scoped_use (Acquire c # evs) =
     (evs \<noteq> [] \<and> last evs = Release c \<and> list_all (is_query_on c) (butlast evs))"
| "scoped_use (ev # evs) = False"

text \<open>
  What holds of the body of \<^verbatim>\<open>try\<close> when it stops: with \<^verbatim>\<open>conn\<close> unset nothing was
  borrowed, with \<^verbatim>\<open>conn\<close> set that connection is borrowed and only statements on it
  followed.
\<close>

definition try_scoped :: "world \<Rightarrow> (string + response) \<times> nat option \<times> world \<Rightarrow> bool" where
  "try_scoped w t =
     (case t of (r, conn, w1) \<Rightarrow>
        (case conn of
           None \<Rightarrow> w1 = w
         | Some c \<Rightarrow> idle w = c # idle w1 \<and> leased w1 = c # leased w \<and>
             (\<exists>qs. trace w1 = trace w @ Acquire c # qs \<and> list_all (is_query_on c) qs)))"

text \<open>The store does not fail during an invocation that sends \<open>n\<close> statements.\<close>

definition store_ok :: "env \<Rightarrow> world \<Rightarrow> nat \<Rightarrow> bool" where
  "store_ok e w n = (acquire_err e = None \<and> idle w \<noteq> [] \<and> list_all (\<lambda>k. query_err e k = None) [0..<n])"

text \<open>
  The pool after an invocation that started in \<open>w\<close>: nothing more is borrowed, the
  connections at rest are the same ones, and what the invocation added to the trace is a
  scoped use.
\<close>

definition pool_restored :: "world \<Rightarrow> world \<Rightarrow> bool" where
  "pool_restored w w' =
     (leased w' = leased w \<and> mset (idle w') = mset (idle w) \<and>
      take (length (trace w)) (trace w') = trace w \<and>
      scoped_use (drop (length (trace w)) (trace w')))"

text \<open>
  The rows of a box: those a statement's \<^verbatim>\<open>WHERE box_id = ?\<close> selects for the \<^verbatim>\<open>boxId\<close> of
  the path.
\<close>

definition readings_of :: "string \<Rightarrow> database \<Rightarrow> sensor_log list" where
  "readings_of boxId d = filter (\<lambda>r. sql_eq (sl_box_id r) (JStr boxId)) (sensor_logs d)"

definition compartment_rows_of :: "string \<Rightarrow> database \<Rightarrow> compartment_row list" where
  "compartment_rows_of boxId d =
     filter (\<lambda>r. sql_eq (cs_box_id r) (JStr boxId)) (compartment_status d)"

definition schedule_of :: "string \<Rightarrow> database \<Rightarrow> schedule_row list" where
  "schedule_of boxId d = filter (\<lambda>r. sql_eq (ms_box_id r) (JStr boxId)) (medication_schedule d)"

text \<open>What the completion statement does to one row.\<close>

definition mark_taken :: "jsval \<Rightarrow> int \<Rightarrow> schedule_row \<Rightarrow> schedule_row" where
  "mark_taken scheduleId now r =
     (if sql_eq (ms_id r) scheduleId then r\<lparr>ms_is_taken := 1, ms_taken_time := Some now\<rparr> else r)"

section \<open>Concrete requests, stores and worlds\<close>

text \<open>An empty store behind a pool of five connections (\<^verbatim>\<open>connectionLimit: 5\<close>).\<close>

definition world0 :: world where
  "world0 = \<lparr>db = \<lparr>sensor_logs = [], compartment_status = [], medication_schedule = []\<rparr>,
             idle = [0, 1, 2, 3, 4], leased = [], trace = []\<rparr>"

text \<open>A store that does not fail, with its clock at \<open>t\<close>.\<close>

definition env_at :: "int \<Rightarrow> env" where
  "env_at t = \<lparr>acquire_err = None, query_err = (\<lambda>k. None), now_at = (\<lambda>k. t)\<rparr>"

text \<open>A store that rejects the \<open>j\<close>-th statement, and one that gives no connection.\<close>

definition env_failing :: "nat \<Rightarrow> int \<Rightarrow> env" where
  "env_failing j t =
     \<lparr>acquire_err = None,
      query_err = (\<lambda>k. if k = j then Some ''ER_LOCK_WAIT_TIMEOUT'' else None),
      now_at = (\<lambda>k. t)\<rparr>"

definition env_no_connection :: env where
  "env_no_connection =
     \<lparr>acquire_err = Some ''ECONNREFUSED'', query_err = (\<lambda>k. None), now_at = (\<lambda>k. 0)\<rparr>"

text \<open>
  \<^verbatim>\<open>{boxId: "box1", temperature: 22.5, humidity: 40,
  compartmentStatus: [{id: 1, isOpen: true}, {id: 2, isOpen: false}]}\<close>
\<close>

definition body1 :: jsval where
  "body1 = JObj [(''boxId'', JStr ''box1''), (''temperature'', JNum (45 / 2)),
                 (''humidity'', JNum 40),
                 (''compartmentStatus'',
                    JArr [JObj [(''id'', JNum 1), (''isOpen'', JBool True)],
                          JObj [(''id'', JNum 2), (''isOpen'', JBool False)]])]"

text \<open>The world after the request \<open>body1\<close> was ingested into \<open>world0\<close> at clock 100.\<close>

definition world1 :: world where
  "world1 =
     \<lparr>db = \<lparr>sensor_logs =
               [\<lparr>sl_box_id = JStr ''box1'', sl_temperature = JNum (45 / 2),
                 sl_humidity = JNum 40, sl_timestamp = 100\<rparr>],
             compartment_status =
               [\<lparr>cs_box_id = JStr ''box1'', cs_compartment_id = JNum 1,
                 cs_is_open = 1, cs_timestamp = 100\<rparr>,
                \<lparr>cs_box_id = JStr ''box1'', cs_compartment_id = JNum 2,
                 cs_is_open = 0, cs_timestamp = 100\<rparr>],
             medication_schedule = []\<rparr>,
       idle = [1, 2, 3, 4, 0], leased = [],
       trace = [Acquire 0,
                Query 0 (Insert_sensor_log (JStr ''box1'') (JNum (45 / 2)) (JNum 40)),
                Query 0 (Insert_compartment_status (JStr ''box1'') (JNum 1) 1),
                Query 0 (Insert_compartment_status (JStr ''box1'') (JNum 2) 0),
                Release 0]\<rparr>"

text \<open>
  A request whose compartment reports carry in \<^verbatim>\<open>isOpen\<close>: "yes", 5, false, 0, null,
  nothing, "" and "false".
\<close>

definition body_truthiness :: jsval where
  "body_truthiness =
     JObj [(''boxId'', JStr ''box1''), (''temperature'', JNum 20), (''humidity'', JNum 40),
           (''compartmentStatus'',
              JArr [JObj [(''id'', JNum 1), (''isOpen'', JStr ''yes'')],
                    JObj [(''id'', JNum 2), (''isOpen'', JNum 5)],
                    JObj [(''id'', JNum 3), (''isOpen'', JBool False)],
                    JObj [(''id'', JNum 4), (''isOpen'', JNum 0)],
                    JObj [(''id'', JNum 5), (''isOpen'', JNull)],
                    JObj [(''id'', JNum 6)],
                    JObj [(''id'', JNum 7), (''isOpen'', JStr [])],
                    JObj [(''id'', JNum 8), (''isOpen'', JStr ''false'')]])]"

text \<open>
  A store with readings and compartment reports of two boxes. At clock 200000 the first
  reading of box1 is 25 hours old and its last one hour old; compartment 1 of box1
  reported four times after compartment 2 reported once.
\<close>

definition world_log :: world where
  "world_log =
     \<lparr>db = \<lparr>sensor_logs =
               [\<lparr>sl_box_id = JStr ''box1'', sl_temperature = JNum 20, sl_humidity = JNum 41,
                 sl_timestamp = 110000\<rparr>,
                \<lparr>sl_box_id = JStr ''box2'', sl_temperature = JNum 25, sl_humidity = JNum 50,
                 sl_timestamp = 196000\<rparr>,
                \<lparr>sl_box_id = JStr ''box1'', sl_temperature = JNum 21, sl_humidity = JNum 40,
                 sl_timestamp = 196400\<rparr>],
             compartment_status =
               [\<lparr>cs_box_id = JStr ''box1'', cs_compartment_id = JNum 2, cs_is_open = 0,
                 cs_timestamp = 100000\<rparr>,
                \<lparr>cs_box_id = JStr ''box1'', cs_compartment_id = JNum 1, cs_is_open = 1,
                 cs_timestamp = 110000\<rparr>,
                \<lparr>cs_box_id = JStr ''box1'', cs_compartment_id = JNum 1, cs_is_open = 0,
                 cs_timestamp = 120000\<rparr>,
                \<lparr>cs_box_id = JStr ''box1'', cs_compartment_id = JNum 1, cs_is_open = 1,
                 cs_timestamp = 130000\<rparr>,
                \<lparr>cs_box_id = JStr ''box1'', cs_compartment_id = JNum 1, cs_is_open = 0,
                 cs_timestamp = 196400\<rparr>,
                \<lparr>cs_box_id = JStr ''box2'', cs_compartment_id = JNum 1, cs_is_open = 1,
                 cs_timestamp = 196500\<rparr>],
             medication_schedule = []\<rparr>,
       idle = [0, 1, 2, 3, 4], leased = [], trace = []\<rparr>"

text \<open>A store with a schedule: entries 1 and 3 of box1 untaken, entry 2 taken.\<close>

definition world_sched :: world where
  "world_sched =
     \<lparr>db = \<lparr>sensor_logs = [], compartment_status = [],
             medication_schedule =
               [\<lparr>ms_id = JNum 1, ms_box_id = JStr ''box1'', ms_scheduled_time = 500,
                 ms_is_taken = 0, ms_taken_time = None\<rparr>,
                \<lparr>ms_id = JNum 2, ms_box_id = JStr ''box1'', ms_scheduled_time = 300,
                 ms_is_taken = 1, ms_taken_time = Some 310\<rparr>,
                \<lparr>ms_id = JNum 3, ms_box_id = JStr ''box1'', ms_scheduled_time = 100,
                 ms_is_taken = 0, ms_taken_time = None\<rparr>,
                \<lparr>ms_id = JNum 4, ms_box_id = JStr ''box2'', ms_scheduled_time = 200,
                 ms_is_taken = 0, ms_taken_time = None\<rparr>]\<rparr>,
       idle = [0, 1, 2, 3, 4], leased = [], trace = []\<rparr>"

text \<open>\<^verbatim>\<open>{scheduleId: n}\<close>\<close>

definition body_complete :: "rat \<Rightarrow> jsval" where
  "body_complete n = JObj [(''scheduleId'', JNum n)]"

section \<open>Properties\<close>

subsection \<open>Reading a request body\<close>

lemma js_get_cases:
  "js_get v k = (if nullish v then Inl (if v = JUndefined then ''TypeError: cannot read properties of undefined'' else ''TypeError: cannot read properties of null'') else Inr (js_prop v k))"
  by (cases v) (simp_all add: nullish_def js_prop_def)

subsection \<open>The pool and the connection\<close>

lemma getConnection_cases:
  "getConnection e w =
     (case acquire_err e of
        Some msg \<Rightarrow> (Inl msg, w)
      | None \<Rightarrow> (if idle w = [] then (Inl ''retrieve connection from pool timeout'', w)
                  else (Inr (hd (idle w)),
                        w\<lparr>idle := tl (idle w), leased := hd (idle w) # leased w,
                          trace := trace w @ [Acquire (hd (idle w))]\<rparr>)))"
  by (simp add: getConnection_def split: option.splits list.splits)

lemma getConnection_Inl: "getConnection e w = (Inl msg, w1) \<Longrightarrow> w1 = w"
  by (auto simp: getConnection_def split: option.splits list.splits)

lemma getConnection_Inr:
  "getConnection e w = (Inr c, w1) \<Longrightarrow>
     idle w = c # idle w1 \<and> leased w1 = c # leased w \<and> trace w1 = trace w @ [Acquire c]
     \<and> db w1 = db w"
  by (auto simp: getConnection_def split: option.splits list.splits)

lemma conn_query_pool:
  "conn_query e k c s run w = (r, w1) \<Longrightarrow>
     idle w1 = idle w \<and> leased w1 = leased w \<and> trace w1 = trace w @ [Query c s]"
  by (auto simp: conn_query_def Let_def split: option.splits prod.splits)

subsection \<open>The compartment loop, one step\<close>

lemma insert_compartments_step:
  "insert_compartments e k c boxId (x # xs) w =
     (if nullish x then (Inl (if x = JUndefined then ''TypeError: cannot read properties of undefined'' else ''TypeError: cannot read properties of null''), w)
      else (case query_err e k of
              Some msg \<Rightarrow> (Inl msg, w\<lparr>trace := trace w @ [compartment_query c boxId x]\<rparr>)
            | None \<Rightarrow> insert_compartments e (Suc k) c boxId xs
                (w\<lparr>trace := trace w @ [compartment_query c boxId x],
                    db := (db w)\<lparr>compartment_status := compartment_status (db w) @
                         [compartment_row_of e boxId (k, x)]\<rparr>\<rparr>)))"
  by (simp add: js_get_cases conn_query_def insert_compartment_status_def Let_def
        compartment_query_def compartment_row_of_def is_open_of_def split: option.splits)

lemma insert_compartments_pool:
  "insert_compartments e k c boxId xs w = (r, w1) \<Longrightarrow>
     idle w1 = idle w \<and> leased w1 = leased w \<and>
     (\<exists>qs. trace w1 = trace w @ qs \<and> list_all (is_query_on c) qs)"
proof (induction xs arbitrary: k w)
  case Nil
  then show ?case by auto
next
  case (Cons x xs)
  show ?case
  proof (cases "nullish x \<or> query_err e k \<noteq> None")
    case True
    with Cons.prems show ?thesis
      by (auto simp: insert_compartments_step compartment_query_def simp del: insert_compartments.simps split: if_splits)
  next
    case False
    with Cons.prems have "insert_compartments e (Suc k) c boxId xs
                (w\<lparr>trace := trace w @ [compartment_query c boxId x],
                    db := (db w)\<lparr>compartment_status := compartment_status (db w) @
                         [compartment_row_of e boxId (k, x)]\<rparr>\<rparr>) = (r, w1)"
      by (simp add: insert_compartments_step del: insert_compartments.simps)
    from Cons.IH[OF this] show ?thesis
      by (auto simp: compartment_query_def)
  qed
qed

subsection \<open>Every handler gives its connection back\<close>

lemma catch_finally_scoped:
  assumes "try_scoped w t" and "catch_finally t = (r, w')"
  shows "leased w' = leased w \<and> mset (idle w') = mset (idle w) \<and>
         (\<exists>evs. trace w' = trace w @ evs \<and> scoped_use evs)"
proof -
  obtain r0 conn w1 where t: "t = (r0, conn, w1)" by (cases t) auto
  show ?thesis
  proof (cases conn)
    case None
    with assms t show ?thesis by (auto simp: try_scoped_def catch_finally_def)
  next
    case (Some c)
    with assms t obtain qs where
      "idle w = c # idle w1" "leased w1 = c # leased w"
      "trace w1 = trace w @ Acquire c # qs" "list_all (is_query_on c) qs"
      by (auto simp: try_scoped_def)
    moreover from assms t Some have "w' = release c w1" by (simp add: catch_finally_def)
    ultimately show ?thesis
      by (auto simp: release_def intro!: exI[of _ "Acquire c # qs @ [Release c]"])
  qed
qed

lemma sensor_data_try_scoped: "try_scoped w (sensor_data_try e body w)"
  unfolding sensor_data_try_def try_scoped_def
  by (auto simp: js_get_cases split: sum.splits prod.splits if_splits
      dest!: getConnection_Inl getConnection_Inr conn_query_pool insert_compartments_pool)

lemma latest_try_scoped: "try_scoped w (latest_try e boxId w)"
  unfolding latest_try_def try_scoped_def
  by (auto split: sum.splits prod.splits
      dest!: getConnection_Inl getConnection_Inr conn_query_pool)

lemma history_try_scoped: "try_scoped w (history_try e boxId w)"
  unfolding history_try_def try_scoped_def
  by (auto split: sum.splits prod.splits
      dest!: getConnection_Inl getConnection_Inr conn_query_pool)

lemma schedule_try_scoped: "try_scoped w (schedule_try e boxId w)"
  unfolding schedule_try_def try_scoped_def
  by (auto split: sum.splits prod.splits
      dest!: getConnection_Inl getConnection_Inr conn_query_pool)

lemma complete_try_scoped: "try_scoped w (complete_try e body w)"
  unfolding complete_try_def try_scoped_def
  by (auto simp: js_get_cases split: sum.splits prod.splits if_splits
      dest!: getConnection_Inl getConnection_Inr conn_query_pool)

lemma medication_history_try_scoped: "try_scoped w (medication_history_try e boxId w)"
  unfolding medication_history_try_def try_scoped_def
  by (auto split: sum.splits prod.splits
      dest!: getConnection_Inl getConnection_Inr conn_query_pool)

lemma catch_finally_restored:
  assumes "try_scoped w t"
  shows "pool_restored w (snd (catch_finally t))"
proof -
  obtain r w' where rw: "catch_finally t = (r, w')" by (cases "catch_finally t") auto
  from catch_finally_scoped[OF assms rw] show ?thesis
    by (auto simp: pool_restored_def rw)
qed

text \<open>
  Claim C4. Every handler releases the connection it borrowed on every exit path: whatever
  the request and whatever the store does (a rejected \<^verbatim>\<open>getConnection\<close>, a rejected
  insert or query at any position), after the invocation no additional connection is
  borrowed, the connections at rest are the same, and the invocation's events are either
  none (no connection was acquired, and none is released) or one \<open>Acquire c\<close>, statements
  on \<open>c\<close> only, and one final \<open>Release c\<close>.
\<close>

theorem handlers_release_connection:
  "pool_restored w (snd (sensor_data_handler e body w)) \<and>
   pool_restored w (snd (latest_handler e boxId w)) \<and>
   pool_restored w (snd (history_handler e boxId w)) \<and>
   pool_restored w (snd (schedule_handler e boxId w)) \<and>
   pool_restored w (snd (complete_handler e body w)) \<and>
   pool_restored w (snd (medication_history_handler e boxId w))"
  unfolding sensor_data_handler_def latest_handler_def history_handler_def
    schedule_handler_def complete_handler_def medication_history_handler_def
  by (intro conjI catch_finally_restored sensor_data_try_scoped latest_try_scoped
      history_try_scoped schedule_try_scoped complete_try_scoped
      medication_history_try_scoped)

theorem handlers_release_connection_witness:
  "snd (sensor_data_handler (env_failing 2 100) body1 world0) =
     \<lparr>db = \<lparr>sensor_logs =
               [\<lparr>sl_box_id = JStr ''box1'', sl_temperature = JNum (45 / 2),
                 sl_humidity = JNum 40, sl_timestamp = 100\<rparr>],
             compartment_status =
               [\<lparr>cs_box_id = JStr ''box1'', cs_compartment_id = JNum 1,
                 cs_is_open = 1, cs_timestamp = 100\<rparr>],
             medication_schedule = []\<rparr>,
       idle = [1, 2, 3, 4, 0], leased = [],
       trace = [Acquire 0,
                Query 0 (Insert_sensor_log (JStr ''box1'') (JNum (45 / 2)) (JNum 40)),
                Query 0 (Insert_compartment_status (JStr ''box1'') (JNum 1) 1),
                Query 0 (Insert_compartment_status (JStr ''box1'') (JNum 2) 0),
                Release 0]\<rparr> \<and>
   pool_restored world0 (snd (sensor_data_handler (env_failing 2 100) body1 world0)) \<and>
   snd (latest_handler env_no_connection ''box1'' world0) = world0 \<and>
   pool_restored world0 (snd (latest_handler env_no_connection ''box1'' world0)) \<and>
   pool_restored world0 (snd (history_handler (env_failing 0 100) ''box1'' world0)) \<and>
   pool_restored world0 (snd (schedule_handler (env_at 100) ''box1'' world0)) \<and>
   pool_restored world0 (snd (complete_handler (env_at 100) JNull world0)) \<and>
   pool_restored world0 (snd (medication_history_handler (env_at 100) ''box1'' world0))"
proof -
  have run: "snd (sensor_data_handler (env_failing 2 100) body1 world0) =
     \<lparr>db = \<lparr>sensor_logs =
               [\<lparr>sl_box_id = JStr ''box1'', sl_temperature = JNum (45 / 2),
                 sl_humidity = JNum 40, sl_timestamp = 100\<rparr>],
             compartment_status =
               [\<lparr>cs_box_id = JStr ''box1'', cs_compartment_id = JNum 1,
                 cs_is_open = 1, cs_timestamp = 100\<rparr>],
             medication_schedule = []\<rparr>,
       idle = [1, 2, 3, 4, 0], leased = [],
       trace = [Acquire 0,
                Query 0 (Insert_sensor_log (JStr ''box1'') (JNum (45 / 2)) (JNum 40)),
                Query 0 (Insert_compartment_status (JStr ''box1'') (JNum 1) 1),
                Query 0 (Insert_compartment_status (JStr ''box1'') (JNum 2) 0),
                Release 0]\<rparr>"
    by (simp add: sensor_data_handler_def sensor_data_try_def env_failing_def body1_def
        world0_def getConnection_def conn_query_def catch_finally_def release_def
        insert_sensor_log_def insert_compartment_status_def)
  have none: "snd (latest_handler env_no_connection ''box1'' world0) = world0"
    by (simp add: latest_handler_def latest_try_def env_no_connection_def
        getConnection_def catch_finally_def)
  from handlers_release_connection[of world0 "env_failing 2 100" body1]
    handlers_release_connection[of world0 env_no_connection _ "''box1''"]
    handlers_release_connection[of world0 "env_failing 0 100" _ "''box1''"]
    handlers_release_connection[of world0 "env_at 100" JNull "''box1''"]
    run none
  show ?thesis by blast
qed

subsection \<open>The ingestion handler\<close>

lemma loop_guard:
  "(if truthy cs \<and> isArray cs then insert_compartments e k c boxId (elements cs) w
    else (Inr (), w)) = insert_compartments e k c boxId (elements cs) w"
  by (cases cs) simp_all

lemma insert_compartments_Inr:
  "insert_compartments e k c boxId xs w = (Inr u, w') \<Longrightarrow>
     w' = w\<lparr>db := (db w)\<lparr>compartment_status := compartment_status (db w) @
                 map (compartment_row_of e boxId) (enumerate k xs)\<rparr>,
            trace := trace w @ map (compartment_query c boxId) xs\<rparr>"
proof (induction xs arbitrary: k w)
  case Nil
  then show ?case by simp
next
  case (Cons x xs)
  from Cons.prems have nx: "\<not> nullish x" and q: "query_err e k = None"
    by (auto simp: insert_compartments_step simp del: insert_compartments.simps
        split: if_splits option.splits)
  with Cons.prems have "insert_compartments e (Suc k) c boxId xs
                (w\<lparr>trace := trace w @ [compartment_query c boxId x],
                    db := (db w)\<lparr>compartment_status := compartment_status (db w) @
                         [compartment_row_of e boxId (k, x)]\<rparr>\<rparr>) = (Inr u, w')"
    by (simp add: insert_compartments_step del: insert_compartments.simps)
  from Cons.IH[OF this] show ?case by simp
qed

lemma insert_compartments_rows:
  "insert_compartments e k c boxId xs w = (r, w') \<Longrightarrow>
     \<exists>n\<le>length xs.
       db w' = (db w)\<lparr>compartment_status := compartment_status (db w) @
                 map (compartment_row_of e boxId) (enumerate k (take n xs))\<rparr>
       \<and> (r = Inr () \<longrightarrow> n = length xs)"
proof (induction xs arbitrary: k w)
  case Nil
  then show ?case by auto
next
  case (Cons x xs)
  show ?case
  proof (cases "nullish x \<or> query_err e k \<noteq> None")
    case True
    with Cons.prems have "db w' = db w" and "r \<noteq> Inr ()"
      by (auto simp: insert_compartments_step simp del: insert_compartments.simps
          split: if_splits)
    then show ?thesis by (intro exI[of _ 0]) simp
  next
    case False
    with Cons.prems have "insert_compartments e (Suc k) c boxId xs
                (w\<lparr>trace := trace w @ [compartment_query c boxId x],
                    db := (db w)\<lparr>compartment_status := compartment_status (db w) @
                         [compartment_row_of e boxId (k, x)]\<rparr>\<rparr>) = (r, w')"
      by (simp add: insert_compartments_step del: insert_compartments.simps)
    from Cons.IH[OF this] obtain n where "n \<le> length xs"
      and "db w' = (db w)\<lparr>compartment_status := compartment_status (db w) @
             compartment_row_of e boxId (k, x) #
             map (compartment_row_of e boxId) (enumerate (Suc k) (take n xs))\<rparr>"
      and "r = Inr () \<longrightarrow> n = length xs"
      by auto
    then show ?thesis by (intro exI[of _ "Suc n"]) simp
  qed
qed

lemma insert_compartments_fail:
  assumes "n < length xs" and "\<forall>i<n. query_err e (k + i) = None"
    and "query_err e (k + n) = Some msg" and "\<forall>x\<in>set (take (Suc n) xs). \<not> nullish x"
  shows "insert_compartments e k c boxId xs w =
     (Inl msg, w\<lparr>trace := trace w @ map (compartment_query c boxId) (take (Suc n) xs),
                 db := (db w)\<lparr>compartment_status := compartment_status (db w) @
                   map (compartment_row_of e boxId) (enumerate k (take n xs))\<rparr>\<rparr>)"
  using assms
proof (induction xs arbitrary: k n w)
  case Nil
  then show ?case by simp
next
  case (Cons x xs)
  from Cons.prems(4) have nx: "\<not> nullish x" by simp
  show ?case
  proof (cases n)
    case 0
    with Cons.prems nx show ?thesis
      by (simp add: insert_compartments_step del: insert_compartments.simps)
  next
    case (Suc m)
    with Cons.prems have q: "query_err e k = None"
      and m: "m < length xs" "\<forall>i<m. query_err e (Suc k + i) = None"
        "query_err e (Suc k + m) = Some msg" "\<forall>x\<in>set (take (Suc m) xs). \<not> nullish x"
      by (auto dest: spec[of _ 0] spec[of _ "Suc _"])
    show ?thesis
      by (simp add: insert_compartments_step nx q Suc Cons.IH[OF m]
          del: insert_compartments.simps)
  qed
qed

lemma sensor_data_try_acquired:
  assumes "\<not> nullish body" and "acquire_err e = None" and "idle w = c # cs"
  shows "sensor_data_try e body w =
     (case query_err e 0 of
        Some msg \<Rightarrow>
          (Inl msg, Some c,
           w\<lparr>idle := cs, leased := c # leased w,
             trace := trace w @ [Acquire c, reading_query c body]\<rparr>)
      | None \<Rightarrow>
          (case insert_compartments e 1 c (js_prop body ''boxId'') (compartments_of body)
                  (w\<lparr>idle := cs, leased := c # leased w,
                     trace := trace w @ [Acquire c, reading_query c body],
                     db := (db w)\<lparr>sensor_logs := sensor_logs (db w) @ [reading_row_of e body]\<rparr>\<rparr>) of
             (Inl msg, w3) \<Rightarrow> (Inl msg, Some c, w3)
           | (Inr u, w3) \<Rightarrow> (Inr (Ack ''Data received successfully''), Some c, w3)))"
  using assms
  by (simp add: sensor_data_try_def js_get_cases getConnection_def conn_query_def
      insert_sensor_log_def loop_guard reading_query_def reading_row_of_def
      compartments_of_def split: option.splits)

lemma sensor_data_try_not_acquired:
  assumes "nullish body \<or> acquire_err e \<noteq> None \<or> idle w = []"
  shows "\<exists>msg. sensor_data_try e body w = (Inl msg, None, w)"
  using assms
  by (auto simp: sensor_data_try_def js_get_cases getConnection_def
      split: option.splits list.splits)

lemma sensor_data_handler_Ack:
  assumes "sensor_data_handler e body w = (Ack m, w')"
  shows "\<exists>c cs. idle w = c # cs \<and> \<not> nullish body \<and> acquire_err e = None \<and>
           m = ''Data received successfully'' \<and>
           w' = w\<lparr>idle := cs @ [c],
                  trace := trace w @ Acquire c # reading_query c body #
                     map (compartment_query c (js_prop body ''boxId'')) (compartments_of body) @
                     [Release c],
                  db := (db w)\<lparr>sensor_logs := sensor_logs (db w) @ [reading_row_of e body],
                     compartment_status := compartment_status (db w) @
                       map (compartment_row_of e (js_prop body ''boxId''))
                         (enumerate 1 (compartments_of body))\<rparr>\<rparr>"
proof (cases "nullish body \<or> acquire_err e \<noteq> None \<or> idle w = []")
  case True
  from sensor_data_try_not_acquired[OF this] assms show ?thesis
    by (auto simp: sensor_data_handler_def catch_finally_def)
next
  case False
  then obtain c cs where a: "\<not> nullish body" "acquire_err e = None" "idle w = c # cs"
    by (cases "idle w") auto
  show ?thesis
  proof (cases "query_err e 0")
    case (Some msg)
    with assms show ?thesis
      by (simp add: sensor_data_handler_def sensor_data_try_acquired[OF a] catch_finally_def)
  next
    case None
    let ?w2 = "w\<lparr>idle := cs, leased := c # leased w,
                     trace := trace w @ [Acquire c, reading_query c body],
                     db := (db w)\<lparr>sensor_logs := sensor_logs (db w) @ [reading_row_of e body]\<rparr>\<rparr>"
    obtain r w3 where l: "insert_compartments e 1 c (js_prop body ''boxId'')
        (compartments_of body) ?w2 = (r, w3)"
      by (cases "insert_compartments e 1 c (js_prop body ''boxId'') (compartments_of body) ?w2") auto
    with assms None have r: "r = Inr ()" and w': "w' = release c w3"
      and m: "m = ''Data received successfully''"
      by (auto simp: sensor_data_handler_def sensor_data_try_acquired[OF a] catch_finally_def
          split: sum.splits)
    from insert_compartments_Inr[OF l[unfolded r]] w' a m show ?thesis
      by (simp add: release_def)
  qed
qed

lemma sensor_data_handler_rows:
  assumes "sensor_data_handler e body w = (r, w')"
  shows "\<exists>n\<le>length (compartments_of body).
           compartment_status (db w') = compartment_status (db w) @
             map (compartment_row_of e (js_prop body ''boxId''))
               (enumerate 1 (take n (compartments_of body))) \<and>
           ((\<exists>m. r = Ack m) \<longrightarrow> n = length (compartments_of body))"
proof (cases "nullish body \<or> acquire_err e \<noteq> None \<or> idle w = []")
  case True
  from sensor_data_try_not_acquired[OF this] assms have "db w' = db w" "\<nexists>m. r = Ack m"
    by (auto simp: sensor_data_handler_def catch_finally_def)
  then show ?thesis by (intro exI[of _ 0]) simp
next
  case False
  then obtain c cs where a: "\<not> nullish body" "acquire_err e = None" "idle w = c # cs"
    by (cases "idle w") auto
  show ?thesis
  proof (cases "query_err e 0")
    case (Some msg)
    with assms have "db w' = db w" "\<nexists>m. r = Ack m"
      by (auto simp: sensor_data_handler_def sensor_data_try_acquired[OF a] catch_finally_def
          release_def)
    then show ?thesis by (intro exI[of _ 0]) simp
  next
    case None
    let ?w2 = "w\<lparr>idle := cs, leased := c # leased w,
                     trace := trace w @ [Acquire c, reading_query c body],
                     db := (db w)\<lparr>sensor_logs := sensor_logs (db w) @ [reading_row_of e body]\<rparr>\<rparr>"
    obtain r3 w3 where l: "insert_compartments e 1 c (js_prop body ''boxId'')
        (compartments_of body) ?w2 = (r3, w3)"
      by (cases "insert_compartments e 1 c (js_prop body ''boxId'') (compartments_of body) ?w2") auto
    with assms None have w': "w' = release c w3" and r: "(\<exists>m. r = Ack m) \<longrightarrow> r3 = Inr ()"
      by (auto simp: sensor_data_handler_def sensor_data_try_acquired[OF a] catch_finally_def
          split: sum.splits)
    from insert_compartments_rows[OF l] obtain n where "n \<le> length (compartments_of body)"
      and "db w3 = (db ?w2)\<lparr>compartment_status := compartment_status (db ?w2) @
                 map (compartment_row_of e (js_prop body ''boxId''))
                   (enumerate 1 (take n (compartments_of body)))\<rparr>"
      and "r3 = Inr () \<longrightarrow> n = length (compartments_of body)"
      by blast
    with w' r show ?thesis
      by (intro exI[of _ n]) (simp add: release_def)
  qed
qed

lemma insert_compartments_ok:
  assumes "\<forall>x\<in>set xs. \<not> nullish x" and "\<forall>i<length xs. query_err e (k + i) = None"
  shows "insert_compartments e k c boxId xs w =
     (Inr (), w\<lparr>trace := trace w @ map (compartment_query c boxId) xs,
                db := (db w)\<lparr>compartment_status := compartment_status (db w) @
                   map (compartment_row_of e boxId) (enumerate k xs)\<rparr>\<rparr>)"
  using assms
proof (induction xs arbitrary: k w)
  case Nil
  then show ?case by simp
next
  case (Cons x xs)
  from Cons.prems have nx: "\<not> nullish x" and q: "query_err e k = None"
    and rest: "\<forall>x\<in>set xs. \<not> nullish x" "\<forall>i<length xs. query_err e (Suc k + i) = None"
    by (auto dest: spec[of _ 0] spec[of _ "Suc _"])
  show ?case
    by (simp add: insert_compartments_step nx q Cons.IH[OF rest]
        del: insert_compartments.simps)
qed

lemma store_ok_iff:
  "store_ok e w n = (acquire_err e = None \<and> idle w \<noteq> [] \<and> (\<forall>k<n. query_err e k = None))"
  by (auto simp: store_ok_def list_all_iff)

lemma sensor_data_handler_ok:
  assumes "\<not> nullish body" and "\<forall>x\<in>set (compartments_of body). \<not> nullish x"
    and "store_ok e w (Suc (length (compartments_of body)))"
  shows "fst (sensor_data_handler e body w) = Ack ''Data received successfully''"
proof -
  from assms(3) obtain c cs where pool: "acquire_err e = None" "idle w = c # cs"
    and q: "\<forall>k<Suc (length (compartments_of body)). query_err e k = None"
    by (cases "idle w") (auto simp: store_ok_iff)
  from q have q0: "query_err e 0 = None"
    and qs: "\<forall>i<length (compartments_of body). query_err e (1 + i) = None"
    by auto
  show ?thesis
    using sensor_data_try_acquired[OF assms(1) pool] q0
      insert_compartments_ok[OF assms(2) qs, of c "js_prop body ''boxId''"]
    by (simp add: sensor_data_handler_def catch_finally_def)
qed

subsection \<open>Evaluating the handlers on concrete requests\<close>

lemmas run_defs =
  sensor_data_handler_def sensor_data_try_def latest_handler_def latest_try_def
  history_handler_def history_try_def schedule_handler_def schedule_try_def
  complete_handler_def complete_try_def medication_history_handler_def
  medication_history_try_def getConnection_def conn_query_def catch_finally_def release_def
  insert_sensor_log_def insert_compartment_status_def select_latest_sensor_def
  select_latest_compartments_def select_history_def select_schedule_def update_complete_def
  select_medication_history_def order_by_asc_def order_by_desc_def sql_eq_def
  interval_24_hour_def env_at_def env_failing_def env_no_connection_def world0_def body1_def

subsection \<open>Ingestion: rows inserted\<close>

text \<open>
  Claim C1. An ingestion request whose body is an object and whose compartment reports
  are none of them null succeeds when the store does not fail. Whenever an ingestion
  request succeeds (the handler answers with the acknowledgement), it inserted exactly one
  reading row, and exactly N compartment rows where N is the length of the supplied
  compartment sequence, none when \<^verbatim>\<open>compartmentStatus\<close> is absent or not an array. The
  compartment rows are appended in input order, and the statements were sent one after
  the other on the one connection the handler borrowed: first the reading, then the
  compartments in input order.
\<close>

theorem ingestion_row_counts:
  assumes "sensor_data_handler e body w = (r, w')"
  shows "(\<not> nullish body \<and> (\<forall>x\<in>set (compartments_of body). \<not> nullish x) \<and>
          store_ok e w (Suc (length (compartments_of body))) \<longrightarrow>
            r = Ack ''Data received successfully'') \<and>
         (r = Ack m \<longrightarrow>
            sensor_logs (db w') = sensor_logs (db w) @ [reading_row_of e body] \<and>
            compartment_status (db w') = compartment_status (db w) @
              map (compartment_row_of e (js_prop body ''boxId''))
                (enumerate 1 (compartments_of body)) \<and>
            length (sensor_logs (db w')) = length (sensor_logs (db w)) + 1 \<and>
            length (compartment_status (db w')) =
              length (compartment_status (db w)) + length (compartments_of body) \<and>
            map cs_compartment_id
                (drop (length (compartment_status (db w))) (compartment_status (db w'))) =
              map (\<lambda>x. js_prop x ''id'') (compartments_of body) \<and>
            (\<not> isArray (js_prop body ''compartmentStatus'') \<longrightarrow>
               compartment_status (db w') = compartment_status (db w)) \<and>
            medication_schedule (db w') = medication_schedule (db w) \<and>
            (\<exists>c. trace w' = trace w @ Acquire c # reading_query c body #
                     map (compartment_query c (js_prop body ''boxId'')) (compartments_of body) @
                     [Release c]))"
proof (rule conjI; rule impI)
  assume "\<not> nullish body \<and> (\<forall>x\<in>set (compartments_of body). \<not> nullish x) \<and>
          store_ok e w (Suc (length (compartments_of body)))"
  then have "fst (sensor_data_handler e body w) = Ack ''Data received successfully''"
    by (intro sensor_data_handler_ok) simp_all
  with assms show "r = Ack ''Data received successfully''" by simp
next
  assume "r = Ack m"
  with assms have "sensor_data_handler e body w = (Ack m, w')" by simp
  from sensor_data_handler_Ack[OF this] obtain c cs where
    w': "w' = w\<lparr>idle := cs @ [c],
                  trace := trace w @ Acquire c # reading_query c body #
                     map (compartment_query c (js_prop body ''boxId'')) (compartments_of body) @
                     [Release c],
                  db := (db w)\<lparr>sensor_logs := sensor_logs (db w) @ [reading_row_of e body],
                     compartment_status := compartment_status (db w) @
                       map (compartment_row_of e (js_prop body ''boxId''))
                         (enumerate 1 (compartments_of body))\<rparr>\<rparr>"
    by blast
  have ids: "map (cs_compartment_id \<circ> compartment_row_of e b) (enumerate k xs) =
      map (\<lambda>x. js_prop x ''id'') xs" for b k xs
    by (induction xs arbitrary: k) (simp_all add: compartment_row_of_def)
  have absent: "\<not> isArray v \<Longrightarrow> elements v = []" for v
    by (cases v) simp_all
  show "sensor_logs (db w') = sensor_logs (db w) @ [reading_row_of e body] \<and>
            compartment_status (db w') = compartment_status (db w) @
              map (compartment_row_of e (js_prop body ''boxId''))
                (enumerate 1 (compartments_of body)) \<and>
            length (sensor_logs (db w')) = length (sensor_logs (db w)) + 1 \<and>
            length (compartment_status (db w')) =
              length (compartment_status (db w)) + length (compartments_of body) \<and>
            map cs_compartment_id
                (drop (length (compartment_status (db w))) (compartment_status (db w'))) =
              map (\<lambda>x. js_prop x ''id'') (compartments_of body) \<and>
            (\<not> isArray (js_prop body ''compartmentStatus'') \<longrightarrow>
               compartment_status (db w') = compartment_status (db w)) \<and>
            medication_schedule (db w') = medication_schedule (db w) \<and>
            (\<exists>c. trace w' = trace w @ Acquire c # reading_query c body #
                     map (compartment_query c (js_prop body ''boxId'')) (compartments_of body) @
                     [Release c])"
    by (simp add: w' ids compartments_of_def absent)
qed

theorem ingestion_row_counts_witness:
  "\<not> nullish body1 \<and> list_all (\<lambda>x. \<not> nullish x) (compartments_of body1) \<and>
   store_ok (env_at 100) world0 (Suc (length (compartments_of body1))) \<and>
   sensor_data_handler (env_at 100) body1 world0 = (Ack ''Data received successfully'', world1) \<and>
   length (compartments_of body1) = 2 \<and>
   length (sensor_logs (db world1)) = length (sensor_logs (db world0)) + 1 \<and>
   length (compartment_status (db world1)) =
     length (compartment_status (db world0)) + length (compartments_of body1) \<and>
   map cs_compartment_id
       (drop (length (compartment_status (db world0))) (compartment_status (db world1))) =
     map (\<lambda>x. js_prop x ''id'') (compartments_of body1) \<and>
   map (\<lambda>x. js_prop x ''id'') (compartments_of body1) = [JNum 1, JNum 2] \<and>
   (\<exists>c. trace world1 = trace world0 @ Acquire c # reading_query c body1 #
      map (compartment_query c (js_prop body1 ''boxId'')) (compartments_of body1) @ [Release c])"
proof -
  obtain r w' where run: "sensor_data_handler (env_at 100) body1 world0 = (r, w')"
    by (cases "sensor_data_handler (env_at 100) body1 world0") auto
  have comps: "compartments_of body1 =
      [JObj [(''id'', JNum 1), (''isOpen'', JBool True)],
       JObj [(''id'', JNum 2), (''isOpen'', JBool False)]]"
    by (simp add: compartments_of_def js_prop_def body1_def)
  have body: "\<not> nullish body1"
    by (simp add: nullish_def body1_def)
  have valid: "list_all (\<lambda>x. \<not> nullish x) (compartments_of body1)"
    "store_ok (env_at 100) world0 (Suc (length (compartments_of body1)))"
    by (simp_all add: comps nullish_def store_ok_def env_at_def world0_def)
  then have valid': "\<forall>x\<in>set (compartments_of body1). \<not> nullish x"
    by (simp add: list_all_iff)
  have ev: "length (compartments_of body1) = 2"
    "map (\<lambda>x. js_prop x ''id'') (compartments_of body1) = [JNum 1, JNum 2]"
    by (simp_all add: comps js_prop_def)
  from ingestion_row_counts[OF run, of "''Data received successfully''"] body valid valid'
  have r: "r = Ack ''Data received successfully''" by blast
  have w': "w' = world1"
    using run by (simp add: run_defs world1_def)
  from ingestion_row_counts[OF run, of "''Data received successfully''"] r w' run body valid ev
  show ?thesis by blast
qed

text \<open>
  Claim C5. When the \<open>j\<close>-th statement of an ingestion is the first one the store
  rejects (\<open>j = 0\<close> is the reading, \<open>j > 0\<close> the \<open>j\<close>-th compartment report), the handler
  sends no statement after it, answers with the failure carrying the store's message,
  and the rows inserted by the statements before it stay in the tables: the reading (when
  \<open>j > 0\<close>) and the first \<open>j - 1\<close> compartment rows. Nothing is rolled back, so the
  store differs from the one before the request as soon as one insert went through.
\<close>

theorem ingestion_aborts_without_rollback:
  assumes body: "\<not> nullish body"
    and pool: "acquire_err e = None" "idle w = c # cs"
    and fails: "query_err e j = Some msg" "\<forall>i<j. query_err e i = None"
    and reached: "j \<le> length (compartments_of body)"
      "\<forall>x\<in>set (take j (compartments_of body)). \<not> nullish x"
    and run: "sensor_data_handler e body w = (r, w')"
  shows "r = Failure msg \<and>
         sensor_logs (db w') =
           sensor_logs (db w) @ (if j = 0 then [] else [reading_row_of e body]) \<and>
         compartment_status (db w') = compartment_status (db w) @
           map (compartment_row_of e (js_prop body ''boxId''))
             (enumerate 1 (take (j - 1) (compartments_of body))) \<and>
         medication_schedule (db w') = medication_schedule (db w) \<and>
         trace w' = trace w @ Acquire c #
           take (Suc j) (reading_query c body #
              map (compartment_query c (js_prop body ''boxId'')) (compartments_of body)) @
           [Release c] \<and>
         (0 < j \<longrightarrow> db w' \<noteq> db w)"
proof (cases j)
  case 0
  with fails run show ?thesis
    by (auto simp: sensor_data_handler_def sensor_data_try_acquired[OF body pool]
        catch_finally_def release_def)
next
  case (Suc n)
  with fails reached have q0: "query_err e 0 = None"
    and n: "n < length (compartments_of body)" "\<forall>i<n. query_err e (1 + i) = None"
      "query_err e (1 + n) = Some msg"
      "\<forall>x\<in>set (take (Suc n) (compartments_of body)). \<not> nullish x"
    by auto
  let ?b = "js_prop body ''boxId''"
  let ?w2 = "w\<lparr>idle := cs, leased := c # leased w,
                trace := trace w @ [Acquire c, reading_query c body],
                db := (db w)\<lparr>sensor_logs := sensor_logs (db w) @ [reading_row_of e body]\<rparr>\<rparr>"
  let ?w3 = "?w2\<lparr>trace := trace ?w2 @
                 map (compartment_query c ?b) (take (Suc n) (compartments_of body)),
               db := (db ?w2)\<lparr>compartment_status := compartment_status (db ?w2) @
                 map (compartment_row_of e ?b) (enumerate 1 (take n (compartments_of body)))\<rparr>\<rparr>"
  have "sensor_data_try e body w = (Inl msg, Some c, ?w3)"
    using sensor_data_try_acquired[OF body pool] q0 insert_compartments_fail[OF n, of c ?b ?w2]
    by simp
  with run have "r = Failure msg" and "w' = release c ?w3"
    by (simp_all add: sensor_data_handler_def catch_finally_def)
  then have w': "r = Failure msg"
    "sensor_logs (db w') = sensor_logs (db w) @ [reading_row_of e body]"
    "compartment_status (db w') = compartment_status (db w) @
       map (compartment_row_of e ?b) (enumerate 1 (take n (compartments_of body)))"
    "medication_schedule (db w') = medication_schedule (db w)"
    "trace w' = trace w @ Acquire c # reading_query c body #
       map (compartment_query c ?b) (take (Suc n) (compartments_of body)) @ [Release c]"
    by (simp_all add: release_def)
  have "db w' \<noteq> db w"
  proof
    assume "db w' = db w"
    then have "sensor_logs (db w') = sensor_logs (db w)" by simp
    with w'(2) show False by simp
  qed
  with w' show ?thesis
    by (simp add: Suc take_map)
qed

theorem ingestion_aborts_without_rollback_witness:
  "\<not> nullish body1 \<and> acquire_err (env_failing 2 100) = None \<and> idle world0 = 0 # [1, 2, 3, 4] \<and>
   query_err (env_failing 2 100) 2 = Some ''ER_LOCK_WAIT_TIMEOUT'' \<and>
   query_err (env_failing 2 100) 0 = None \<and> query_err (env_failing 2 100) 1 = None \<and>
   2 \<le> length (compartments_of body1) \<and>
   fst (sensor_data_handler (env_failing 2 100) body1 world0) = Failure ''ER_LOCK_WAIT_TIMEOUT'' \<and>
   sensor_logs (db (snd (sensor_data_handler (env_failing 2 100) body1 world0))) =
     sensor_logs (db world0) @ (if (2::nat) = 0 then [] else [reading_row_of (env_failing 2 100) body1]) \<and>
   sensor_logs (db (snd (sensor_data_handler (env_failing 2 100) body1 world0))) =
     [\<lparr>sl_box_id = JStr ''box1'', sl_temperature = JNum (45 / 2),
       sl_humidity = JNum 40, sl_timestamp = 100\<rparr>] \<and>
   compartment_status (db (snd (sensor_data_handler (env_failing 2 100) body1 world0))) =
     [\<lparr>cs_box_id = JStr ''box1'', cs_compartment_id = JNum 1, cs_is_open = 1,
       cs_timestamp = 100\<rparr>]"
proof -
  obtain r w' where run: "sensor_data_handler (env_failing 2 100) body1 world0 = (r, w')"
    by (cases "sensor_data_handler (env_failing 2 100) body1 world0") auto
  have h: "\<not> nullish body1" "acquire_err (env_failing 2 100) = None"
    "idle world0 = 0 # [1, 2, 3, 4]"
    "query_err (env_failing 2 100) 2 = Some ''ER_LOCK_WAIT_TIMEOUT''"
    "query_err (env_failing 2 100) 0 = None" "query_err (env_failing 2 100) 1 = None"
    by (simp_all add: nullish_def body1_def env_failing_def world0_def)
  have h5: "\<forall>i<2. query_err (env_failing 2 100) i = None"
    by (simp add: env_failing_def)
  have comps: "compartments_of body1 =
      [JObj [(''id'', JNum 1), (''isOpen'', JBool True)],
       JObj [(''id'', JNum 2), (''isOpen'', JBool False)]]"
    by (simp add: compartments_of_def js_prop_def body1_def)
  have h6: "2 \<le> length (compartments_of body1)"
    "\<forall>x\<in>set (take 2 (compartments_of body1)). \<not> nullish x"
    by (simp_all add: comps nullish_def)
  have ev: "sensor_logs (db (snd (sensor_data_handler (env_failing 2 100) body1 world0))) =
     [\<lparr>sl_box_id = JStr ''box1'', sl_temperature = JNum (45 / 2),
       sl_humidity = JNum 40, sl_timestamp = 100\<rparr>]"
     "compartment_status (db (snd (sensor_data_handler (env_failing 2 100) body1 world0))) =
     [\<lparr>cs_box_id = JStr ''box1'', cs_compartment_id = JNum 1, cs_is_open = 1,
       cs_timestamp = 100\<rparr>]"
    by (simp_all add: run_defs)
  from ingestion_aborts_without_rollback[OF h(1-4) h5 h6 run] h h6(1) ev
  show ?thesis unfolding run fst_conv snd_conv by blast
qed

text \<open>
  Claim C9. Every compartment row the ingestion handler inserts (in a request that
  succeeds, all of them; in one that fails, those before the failure) stores in
  \<^verbatim>\<open>is_open\<close> 1 when the report's \<^verbatim>\<open>isOpen\<close> is truthy in JavaScript's sense and 0
  when it is falsy, whatever its type: a non-empty string and a nonzero number are
  stored as 1; false, 0, null, a missing \<^verbatim>\<open>isOpen\<close> (undefined) and the empty string as
  0.
\<close>

theorem is_open_stored_by_truthiness:
  assumes "sensor_data_handler e body w = (r, w')"
  shows "(\<exists>n\<le>length (compartments_of body).
            length (compartment_status (db w')) = length (compartment_status (db w)) + n \<and>
            take (length (compartment_status (db w))) (compartment_status (db w')) =
              compartment_status (db w) \<and>
            map cs_is_open
                (drop (length (compartment_status (db w))) (compartment_status (db w'))) =
              map (\<lambda>x. if truthy (js_prop x ''isOpen'') then 1 else 0)
                (take n (compartments_of body)) \<and>
            ((\<exists>m. r = Ack m) \<longrightarrow> n = length (compartments_of body))) \<and>
         truthy (JStr s) = (s \<noteq> []) \<and> truthy (JNum q) = (q \<noteq> 0) \<and>
         truthy (JBool b) = b \<and> \<not> truthy JNull \<and> \<not> truthy JUndefined \<and>
         js_prop (JObj []) ''isOpen'' = JUndefined"
proof -
  have o: "map (cs_is_open \<circ> compartment_row_of e b) (enumerate k xs) =
      map (\<lambda>x. if truthy (js_prop x ''isOpen'') then 1 else 0) xs" for b k xs
    by (induction xs arbitrary: k) (simp_all add: compartment_row_of_def is_open_of_def)
  from sensor_data_handler_rows[OF assms] obtain n where
    "n \<le> length (compartments_of body)"
    "compartment_status (db w') = compartment_status (db w) @
             map (compartment_row_of e (js_prop body ''boxId''))
               (enumerate 1 (take n (compartments_of body)))"
    "(\<exists>m. r = Ack m) \<longrightarrow> n = length (compartments_of body)"
    by blast
  then have "length (compartment_status (db w')) = length (compartment_status (db w)) + n \<and>
            take (length (compartment_status (db w))) (compartment_status (db w')) =
              compartment_status (db w) \<and>
            map cs_is_open
                (drop (length (compartment_status (db w))) (compartment_status (db w'))) =
              map (\<lambda>x. if truthy (js_prop x ''isOpen'') then 1 else 0)
                (take n (compartments_of body)) \<and>
            ((\<exists>m. r = Ack m) \<longrightarrow> n = length (compartments_of body))"
    by (simp add: o)
  with \<open>n \<le> length (compartments_of body)\<close> show ?thesis
    by (auto simp: js_prop_def)
qed

theorem is_open_stored_by_truthiness_witness:
  "fst (sensor_data_handler (env_at 100) body_truthiness world0) =
     Ack ''Data received successfully'' \<and>
   map cs_is_open
     (compartment_status (db (snd (sensor_data_handler (env_at 100) body_truthiness world0)))) =
     [1, 1, 0, 0, 0, 0, 0, 1] \<and>
   map (\<lambda>x. if truthy (js_prop x ''isOpen'') then 1 else 0) (compartments_of body_truthiness) =
     [1, 1, 0, 0, 0, 0, 0, 1 :: int] \<and>
   truthy (JStr ''yes'') = (''yes'' \<noteq> []) \<and> truthy (JNum 5) = ((5 :: rat) \<noteq> 0)"
proof -
  obtain r w' where run: "sensor_data_handler (env_at 100) body_truthiness world0 = (r, w')"
    by (cases "sensor_data_handler (env_at 100) body_truthiness world0") auto
  have ev: "fst (sensor_data_handler (env_at 100) body_truthiness world0) =
     Ack ''Data received successfully''"
    "map cs_is_open
     (compartment_status (db (snd (sensor_data_handler (env_at 100) body_truthiness world0)))) =
     [1, 1, 0, 0, 0, 0, 0, 1]"
    "map (\<lambda>x. if truthy (js_prop x ''isOpen'') then 1 else 0) (compartments_of body_truthiness) =
     [1, 1, 0, 0, 0, 0, 0, 1 :: int]"
    by (simp_all add: run_defs body_truthiness_def compartments_of_def js_prop_def)
  from is_open_stored_by_truthiness[OF run, of "''yes''" 5] ev show ?thesis by blast
qed

subsection \<open>Ordering and limiting rows\<close>

lemma mset_order_by_desc: "mset (order_by_desc k rows) = mset rows"
  by (simp add: order_by_desc_def)

lemma mset_order_by_asc: "mset (order_by_asc k rows) = mset rows"
  by (simp add: order_by_asc_def)

lemma sorted_order_by_desc: "sorted_wrt (\<lambda>a b. k b \<le> k a) (order_by_desc k rows)"
proof -
  have "sorted (map (\<lambda>r. - k r) (sort_key (\<lambda>r. - k r) rows))"
    by (rule sorted_sort_key)
  then show ?thesis
    by (simp add: order_by_desc_def sorted_map)
qed

lemma sorted_order_by_asc: "sorted_wrt (\<lambda>a b. k a \<le> k b) (order_by_asc k rows)"
proof -
  have "sorted (map k (sort_key k rows))"
    by (rule sorted_sort_key)
  then show ?thesis
    by (simp add: order_by_asc_def sorted_map)
qed

lemma limit_length: "length (take n (order_by_desc k rows)) = min n (length rows)"
proof -
  have "length (order_by_desc k rows) = length rows"
    by (simp add: order_by_desc_def)
  then show ?thesis by (simp add: min.commute)
qed

lemma limit_sorted: "sorted_wrt (\<lambda>a b. k b \<le> k a) (take n (order_by_desc k rows))"
  using sorted_order_by_desc[of k rows] by (rule sorted_wrt_take)

lemma take_drop_mset: "mset xs = mset (take n xs) + mset (drop n xs)"
proof -
  have "mset (take n xs @ drop n xs) = mset (take n xs) + mset (drop n xs)"
    by (rule mset_append)
  then show ?thesis by simp
qed

lemma limit_subset: "mset (take n (order_by_desc k rows)) \<subseteq># mset rows"
proof -
  have "mset (take n (order_by_desc k rows)) \<subseteq># mset (order_by_desc k rows)"
    using take_drop_mset[of "order_by_desc k rows" n] mset_subset_eq_add_left
    by metis
  then show ?thesis by (simp add: mset_order_by_desc)
qed

lemma limit_rest:
  "mset rows - mset (take n (order_by_desc k rows)) = mset (drop n (order_by_desc k rows))"
proof -
  have "mset rows = mset (take n (order_by_desc k rows)) + mset (drop n (order_by_desc k rows))"
    using take_drop_mset[of "order_by_desc k rows" n] by (simp add: mset_order_by_desc)
  then show ?thesis by simp
qed

lemma limit_newest:
  assumes "x \<in> set (take n (order_by_desc k rows))"
    and "y \<in># mset rows - mset (take n (order_by_desc k rows))"
  shows "k y \<le> k x"
proof -
  let ?s = "order_by_desc k rows"
  have "sorted_wrt (\<lambda>a b. k b \<le> k a) (take n ?s @ drop n ?s)"
    using sorted_order_by_desc[of k rows] by simp
  moreover from assms(2) have "y \<in> set (drop n ?s)"
    by (simp add: limit_rest)
  ultimately show ?thesis
    using assms(1) unfolding sorted_wrt_append by blast
qed

lemma limit_1:
  "take (Suc 0) (order_by_desc k rows) = (if rows = [] then [] else [hd (order_by_desc k rows)])"
proof (cases "order_by_desc k rows")
  case Nil
  then have "mset rows = {#}" using mset_order_by_desc[of k rows] by simp
  with Nil show ?thesis by simp
next
  case (Cons a as)
  then have "mset rows \<noteq> {#}" using mset_order_by_desc[of k rows] by auto
  with Cons show ?thesis by auto
qed

lemma hd_order_by_desc:
  assumes "rows \<noteq> []"
  shows "hd (order_by_desc k rows) \<in> set rows \<and> (\<forall>r\<in>set rows. k r \<le> k (hd (order_by_desc k rows)))"
proof -
  obtain a as where s: "order_by_desc k rows = a # as"
    using assms mset_order_by_desc[of k rows] by (cases "order_by_desc k rows") auto
  have set: "set rows = set (a # as)"
    using mset_order_by_desc[of k rows] unfolding s by (metis set_mset_mset)
  from sorted_order_by_desc[of k rows] have "\<forall>r\<in>set as. k r \<le> k a"
    unfolding s by simp
  with set show ?thesis by (auto simp: s)
qed

lemma strictly_increasing_last:
  fixes k :: "'r \<Rightarrow> int"
  shows "sorted_wrt (<) (map k rows) \<Longrightarrow> r \<in> set rows \<Longrightarrow> k (last rows) \<le> k r \<Longrightarrow>
    r = last rows"
proof (induction rows)
  case Nil
  then show ?case by simp
next
  case (Cons x xs)
  show ?case
  proof (cases "xs = []")
    case True
    with Cons.prems show ?thesis by simp
  next
    case False
    then have l: "last xs \<in> set xs" by simp
    from Cons.prems(1) have lt: "\<forall>y\<in>set xs. k x < k y" and s: "sorted_wrt (<) (map k xs)"
      by simp_all
    from lt l have "k x < k (last xs)" by blast
    with Cons.prems(2,3) False have "r \<in> set xs" "k (last xs) \<le> k r"
      by auto
    with Cons.IH[OF s] False show ?thesis by simp
  qed
qed

lemma length_filter_take_drop:
  "length (filter Q xs) = length (filter Q (take i xs)) + length (filter Q (drop i xs))"
proof -
  have "filter Q xs = filter Q (take i xs @ drop i xs)" by simp
  then show ?thesis by (simp only: filter_append length_append)
qed

lemma limit_dominated:
  fixes k :: "'r \<Rightarrow> int"
  assumes "n \<le> length (filter (\<lambda>r. P r \<and> (\<forall>y\<in>set rows. \<not> P y \<longrightarrow> k y < k r)) rows)"
  shows "\<forall>x\<in>set (take n (order_by_desc k rows)). P x"
proof (rule ccontr)
  let ?s = "order_by_desc k rows"
  let ?Q = "\<lambda>r. P r \<and> (\<forall>y\<in>set rows. \<not> P y \<longrightarrow> k y < k r)"
  assume "\<not> (\<forall>x\<in>set (take n ?s). P x)"
  then obtain x where x: "x \<in> set (take n ?s)" "\<not> P x" by blast
  then obtain i where i: "i < length (take n ?s)" "take n ?s ! i = x"
    by (auto simp: in_set_conv_nth)
  then have i': "i < n" "i < length ?s" "?s ! i = x" by simp_all
  have set_s: "set ?s = set rows"
    using mset_order_by_desc[of k rows] by (metis set_mset_mset)
  from i' have x_rows: "x \<in> set rows"
    using set_s nth_mem by blast
  have below: "k y \<le> k x" if "y \<in> set (drop i ?s)" for y
  proof -
    from that obtain j where j: "j < length (drop i ?s)" "drop i ?s ! j = y"
      by (auto simp: in_set_conv_nth)
    then have ij: "i + j < length ?s" "?s ! (i + j) = y" by simp_all
    show ?thesis
    proof (cases j)
      case 0
      with ij i' show ?thesis by simp
    next
      case (Suc m)
      with ij have "i < i + j" "i + j < length ?s" by simp_all
      with sorted_order_by_desc[of k rows] have "k (?s ! (i + j)) \<le> k (?s ! i)"
        unfolding sorted_wrt_iff_nth_less by blast
      with ij i' show ?thesis by simp
    qed
  qed
  have "filter ?Q (drop i ?s) = []"
  proof -
    have "\<not> ?Q y" if "y \<in> set (drop i ?s)" for y
      using below[OF that] x(2) x_rows by force
    then show ?thesis by (simp add: filter_empty_conv)
  qed
  then have "length (filter ?Q ?s) = length (filter ?Q (take i ?s))"
    using length_filter_take_drop[of ?Q ?s i] by simp
  also have "\<dots> \<le> length (take i ?s)"
    by (rule length_filter_le)
  also have "\<dots> \<le> i"
    by simp
  finally have "length (filter ?Q ?s) \<le> i" .
  moreover have "length (filter ?Q ?s) = length (filter ?Q rows)"
  proof -
    have "mset (filter ?Q ?s) = mset (filter ?Q rows)"
      by (simp add: mset_order_by_desc)
    then have "size (mset (filter ?Q ?s)) = size (mset (filter ?Q rows))"
      by (rule arg_cong)
    then show ?thesis by (simp only: size_mset)
  qed
  ultimately show False using assms i'(1) by simp
qed

subsection \<open>The query handlers when the store does not fail\<close>

lemma store_ok_1:
  "store_ok e w (Suc 0) = (acquire_err e = None \<and> idle w \<noteq> [] \<and> query_err e 0 = None)"
  by (simp add: store_ok_def)

lemma store_ok_2:
  "store_ok e w (Suc (Suc 0)) =
     (acquire_err e = None \<and> idle w \<noteq> [] \<and> query_err e 0 = None \<and> query_err e (Suc 0) = None)"
  by (simp add: store_ok_def)

lemma latest_handler_ok:
  assumes "store_ok e w 2"
  shows "latest_handler e boxId w =
     (Latest (case take 1 (order_by_desc sl_timestamp (readings_of boxId (db w))) of
                [] \<Rightarrow> None | r # rs \<Rightarrow> Some r)
             (take 4 (order_by_desc cs_timestamp (compartment_rows_of boxId (db w)))),
      w\<lparr>idle := tl (idle w) @ [hd (idle w)],
        trace := trace w @ [Acquire (hd (idle w)),
                            Query (hd (idle w)) (Select_latest_sensor boxId),
                            Query (hd (idle w)) (Select_latest_compartments boxId),
                            Release (hd (idle w))]\<rparr>)"
  using assms
  by (simp add: store_ok_2 numeral_2_eq_2 latest_handler_def latest_try_def getConnection_cases conn_query_def
      select_latest_sensor_def select_latest_compartments_def catch_finally_def release_def
      readings_of_def compartment_rows_of_def)

lemma history_handler_ok:
  assumes "store_ok e w 1"
  shows "history_handler e boxId w =
     (Sensor_data (order_by_desc sl_timestamp
        (filter (\<lambda>r. now_at e 0 - interval_24_hour < sl_timestamp r) (readings_of boxId (db w)))),
      w\<lparr>idle := tl (idle w) @ [hd (idle w)],
        trace := trace w @ [Acquire (hd (idle w)), Query (hd (idle w)) (Select_history boxId),
                            Release (hd (idle w))]\<rparr>)"
  using assms
  by (simp add: store_ok_1 history_handler_def history_try_def getConnection_cases
      conn_query_def select_history_def catch_finally_def release_def readings_of_def
      conj_commute)

lemma schedule_handler_ok:
  assumes "store_ok e w 1"
  shows "schedule_handler e boxId w =
     (Schedule_data (order_by_asc ms_scheduled_time
        (filter (\<lambda>r. ms_is_taken r = 0) (schedule_of boxId (db w)))),
      w\<lparr>idle := tl (idle w) @ [hd (idle w)],
        trace := trace w @ [Acquire (hd (idle w)), Query (hd (idle w)) (Select_schedule boxId),
                            Release (hd (idle w))]\<rparr>)"
  using assms
  by (simp add: store_ok_1 schedule_handler_def schedule_try_def getConnection_cases
      conn_query_def select_schedule_def catch_finally_def release_def schedule_of_def
      conj_commute)

lemma complete_handler_ok:
  assumes "\<not> nullish body" and "store_ok e w 1"
  shows "complete_handler e body w =
     (Ack ''Medication marked as taken'',
      w\<lparr>idle := tl (idle w) @ [hd (idle w)],
        trace := trace w @ [Acquire (hd (idle w)),
                            Query (hd (idle w)) (Update_complete (js_prop body ''scheduleId'')),
                            Release (hd (idle w))],
        db := (db w)\<lparr>medication_schedule :=
          map (\<lambda>r. if sql_eq (ms_id r) (js_prop body ''scheduleId'')
                    then r\<lparr>ms_is_taken := 1, ms_taken_time := Some (now_at e 0)\<rparr> else r)
              (medication_schedule (db w))\<rparr>\<rparr>)"
  using assms
  by (simp add: store_ok_1 complete_handler_def complete_try_def js_get_cases
      getConnection_cases conn_query_def update_complete_def catch_finally_def release_def)

subsection \<open>A reading after its ingestion\<close>

lemma readings_after_ingestion:
  assumes "sensor_data_handler e0 body w0 = (Ack m, w)"
    and "js_prop body ''boxId'' = JStr boxId"
  shows "readings_of boxId (db w) = readings_of boxId (db w0) @ [reading_row_of e0 body]"
proof -
  from sensor_data_handler_Ack[OF assms(1)]
  have "sensor_logs (db w) = sensor_logs (db w0) @ [reading_row_of e0 body]"
    by auto
  moreover have "sql_eq (sl_box_id (reading_row_of e0 body)) (JStr boxId)"
    by (simp add: reading_row_of_def assms(2) sql_eq_def)
  ultimately show ?thesis by (simp add: readings_of_def)
qed

subsection \<open>State query\<close>

text \<open>
  Claim C2. When the store does not fail, the state query answers with one reading and a
  list of compartment rows, and leaves the store as it is. The reading is null exactly
  when the box has no reading; otherwise it is a reading of that box whose timestamp is
  the greatest among the box's readings. So when the box's readings were inserted at
  strictly increasing times \<open>t1 < t2 < \<dots> < tk\<close>, the answer is the last one, stamped
  \<open>tk\<close>; and right after an ingestion for the box that succeeded at a clock later than
  all earlier readings of the box, the answer is the reading just ingested. The
  compartment rows are at most four rows of that box (four, or all of them when there
  are fewer), ordered most recent first, and no row of the box left out is newer than a
  row returned.
\<close>

theorem latest_returns_newest:
  assumes "store_ok e w 2"
  shows "\<exists>sensor comps.
     fst (latest_handler e boxId w) = Latest sensor comps \<and>
     db (snd (latest_handler e boxId w)) = db w \<and>
     (sensor = None \<longleftrightarrow> readings_of boxId (db w) = []) \<and>
     (\<forall>r. sensor = Some r \<longrightarrow>
        r \<in> set (readings_of boxId (db w)) \<and>
        (\<forall>r'\<in>set (readings_of boxId (db w)). sl_timestamp r' \<le> sl_timestamp r)) \<and>
     (readings_of boxId (db w) \<noteq> [] \<and>
      sorted_wrt (<) (map sl_timestamp (readings_of boxId (db w))) \<longrightarrow>
        sensor = Some (last (readings_of boxId (db w)))) \<and>
     (\<forall>e0 body w0 m.
        sensor_data_handler e0 body w0 = (Ack m, w) \<and> js_prop body ''boxId'' = JStr boxId \<and>
        (\<forall>r\<in>set (readings_of boxId (db w0)). sl_timestamp r < now_at e0 0) \<longrightarrow>
          sensor = Some (reading_row_of e0 body)) \<and>
     length comps = min 4 (length (compartment_rows_of boxId (db w))) \<and>
     sorted_wrt (\<lambda>a b. cs_timestamp b \<le> cs_timestamp a) comps \<and>
     mset comps \<subseteq># mset (compartment_rows_of boxId (db w)) \<and>
     (\<forall>x\<in>set comps. \<forall>y\<in>#mset (compartment_rows_of boxId (db w)) - mset comps.
        cs_timestamp y \<le> cs_timestamp x)"
proof -
  let ?rs = "readings_of boxId (db w)"
  let ?sensor = "case take 1 (order_by_desc sl_timestamp ?rs) of [] \<Rightarrow> None | r # rs \<Rightarrow> Some r"
  let ?comps = "take 4 (order_by_desc cs_timestamp (compartment_rows_of boxId (db w)))"
  have sensor: "?sensor = (if ?rs = [] then None else Some (hd (order_by_desc sl_timestamp ?rs)))"
    by (simp add: limit_1)
  have none: "?sensor = None \<longleftrightarrow> ?rs = []"
    using sensor by simp
  have newest: "r \<in> set ?rs \<and> (\<forall>r'\<in>set ?rs. sl_timestamp r' \<le> sl_timestamp r)"
    if "?sensor = Some r" for r
  proof -
    from that sensor have "?rs \<noteq> []" and "r = hd (order_by_desc sl_timestamp ?rs)"
      by (auto split: if_splits)
    with hd_order_by_desc[of ?rs sl_timestamp] show ?thesis by simp
  qed
  have last: "?sensor = Some (last ?rs)"
    if "?rs \<noteq> [] \<and> sorted_wrt (<) (map sl_timestamp ?rs)"
  proof -
    from that have ne: "?rs \<noteq> []" and inc: "sorted_wrt (<) (map sl_timestamp ?rs)"
      by simp_all
    let ?h = "hd (order_by_desc sl_timestamp ?rs)"
    from hd_order_by_desc[OF ne, of sl_timestamp] ne
    have "?h \<in> set ?rs" and "sl_timestamp (last ?rs) \<le> sl_timestamp ?h"
      by simp_all
    with strictly_increasing_last[OF inc] have "?h = last ?rs" by blast
    with ne sensor show ?thesis by simp
  qed
  have ingested: "?sensor = Some (reading_row_of e0 body)"
    if "sensor_data_handler e0 body w0 = (Ack m, w) \<and> js_prop body ''boxId'' = JStr boxId \<and>
        (\<forall>r\<in>set (readings_of boxId (db w0)). sl_timestamp r < now_at e0 0)"
    for e0 body w0 m
  proof -
    from that have rs: "?rs = readings_of boxId (db w0) @ [reading_row_of e0 body]"
      and older: "\<forall>r\<in>set (readings_of boxId (db w0)). sl_timestamp r < now_at e0 0"
      by (simp_all add: readings_after_ingestion)
    let ?h = "hd (order_by_desc sl_timestamp ?rs)"
    from rs have ne: "?rs \<noteq> []" by simp
    from hd_order_by_desc[OF ne, of sl_timestamp]
    have "?h \<in> set ?rs" and "sl_timestamp (reading_row_of e0 body) \<le> sl_timestamp ?h"
      by (simp_all add: rs)
    moreover have "sl_timestamp (reading_row_of e0 body) = now_at e0 0"
      by (simp add: reading_row_of_def)
    ultimately have "?h = reading_row_of e0 body"
      using older unfolding rs by auto
    with ne sensor show ?thesis by simp
  qed
  have comps: "length ?comps = min 4 (length (compartment_rows_of boxId (db w)))"
    "sorted_wrt (\<lambda>a b. cs_timestamp b \<le> cs_timestamp a) ?comps"
    "mset ?comps \<subseteq># mset (compartment_rows_of boxId (db w))"
    "\<forall>x\<in>set ?comps. \<forall>y\<in>#mset (compartment_rows_of boxId (db w)) - mset ?comps.
        cs_timestamp y \<le> cs_timestamp x"
    using limit_newest[of _ 4 cs_timestamp "compartment_rows_of boxId (db w)"]
    by (simp_all only: limit_length limit_sorted limit_subset) blast
  have "fst (latest_handler e boxId w) = Latest ?sensor ?comps"
    and "db (snd (latest_handler e boxId w)) = db w"
    by (simp_all add: latest_handler_ok[OF assms])
  with none newest last ingested comps show ?thesis
    by (intro exI[of _ ?sensor] exI[of _ ?comps]) blast
qed

theorem latest_returns_newest_witness:
  "store_ok (env_at 200000) world_log 2 \<and>
   sorted_wrt (<) (map sl_timestamp (readings_of ''box1'' (db world_log))) \<and>
   (\<exists>comps. fst (latest_handler (env_at 200000) ''box1'' world_log) =
      Latest (Some (last (readings_of ''box1'' (db world_log)))) comps \<and>
      length comps = min 4 (length (compartment_rows_of ''box1'' (db world_log)))) \<and>
   fst (latest_handler (env_at 200000) ''box1'' world_log) =
     Latest (Some \<lparr>sl_box_id = JStr ''box1'', sl_temperature = JNum 21, sl_humidity = JNum 40,
                   sl_timestamp = 196400\<rparr>)
       [\<lparr>cs_box_id = JStr ''box1'', cs_compartment_id = JNum 1, cs_is_open = 0,
         cs_timestamp = 196400\<rparr>,
        \<lparr>cs_box_id = JStr ''box1'', cs_compartment_id = JNum 1, cs_is_open = 1,
         cs_timestamp = 130000\<rparr>,
        \<lparr>cs_box_id = JStr ''box1'', cs_compartment_id = JNum 1, cs_is_open = 0,
         cs_timestamp = 120000\<rparr>,
        \<lparr>cs_box_id = JStr ''box1'', cs_compartment_id = JNum 1, cs_is_open = 1,
         cs_timestamp = 110000\<rparr>] \<and>
   readings_of ''box3'' (db world_log) = [] \<and>
   (\<exists>comps. fst (latest_handler (env_at 200000) ''box3'' world_log) = Latest None comps) \<and>
   store_ok (env_at 150) world1 2 \<and>
   sensor_data_handler (env_at 100) body1 world0 = (Ack ''Data received successfully'', world1) \<and>
   (\<exists>comps. fst (latest_handler (env_at 150) ''box1'' world1) =
      Latest (Some (reading_row_of (env_at 100) body1)) comps)"
proof -
  have ok: "store_ok (env_at 200000) world_log 2" "store_ok (env_at 150) world1 2"
    by (simp_all add: store_ok_def env_at_def world_log_def world1_def numeral_2_eq_2)
  have rs: "readings_of ''box1'' (db world_log) \<noteq> []"
    "sorted_wrt (<) (map sl_timestamp (readings_of ''box1'' (db world_log)))"
    "readings_of ''box3'' (db world_log) = []"
    by (simp_all add: readings_of_def world_log_def sql_eq_def)
  have ev: "fst (latest_handler (env_at 200000) ''box1'' world_log) =
     Latest (Some \<lparr>sl_box_id = JStr ''box1'', sl_temperature = JNum 21, sl_humidity = JNum 40,
                   sl_timestamp = 196400\<rparr>)
       [\<lparr>cs_box_id = JStr ''box1'', cs_compartment_id = JNum 1, cs_is_open = 0,
         cs_timestamp = 196400\<rparr>,
        \<lparr>cs_box_id = JStr ''box1'', cs_compartment_id = JNum 1, cs_is_open = 1,
         cs_timestamp = 130000\<rparr>,
        \<lparr>cs_box_id = JStr ''box1'', cs_compartment_id = JNum 1, cs_is_open = 0,
         cs_timestamp = 120000\<rparr>,
        \<lparr>cs_box_id = JStr ''box1'', cs_compartment_id = JNum 1, cs_is_open = 1,
         cs_timestamp = 110000\<rparr>]"
    by (simp add: run_defs world_log_def)
  have run: "sensor_data_handler (env_at 100) body1 world0 =
      (Ack ''Data received successfully'', world1)"
    by (simp add: run_defs world1_def)
  have box: "js_prop body1 ''boxId'' = JStr ''box1''"
    "\<forall>r\<in>set (readings_of ''box1'' (db world0)). sl_timestamp r < now_at (env_at 100) 0"
    by (simp_all add: js_prop_def body1_def readings_of_def world0_def)
  from latest_returns_newest[OF ok(1), of "''box1''"] rs
  have a: "\<exists>comps. fst (latest_handler (env_at 200000) ''box1'' world_log) =
      Latest (Some (last (readings_of ''box1'' (db world_log)))) comps \<and>
      length comps = min 4 (length (compartment_rows_of ''box1'' (db world_log)))"
    by blast
  from latest_returns_newest[OF ok(1), of "''box3''"] rs
  have b: "\<exists>comps. fst (latest_handler (env_at 200000) ''box3'' world_log) = Latest None comps"
    by blast
  from latest_returns_newest[OF ok(2), of "''box1''"] obtain sensor comps where
    l: "fst (latest_handler (env_at 150) ''box1'' world1) = Latest sensor comps"
    and i: "\<forall>e0 body w0 m.
        sensor_data_handler e0 body w0 = (Ack m, world1) \<and> js_prop body ''boxId'' = JStr ''box1'' \<and>
        (\<forall>r\<in>set (readings_of ''box1'' (db w0)). sl_timestamp r < now_at e0 0) \<longrightarrow>
          sensor = Some (reading_row_of e0 body)"
    by blast
  from i have "sensor_data_handler (env_at 100) body1 world0 =
        (Ack ''Data received successfully'', world1) \<and> js_prop body1 ''boxId'' = JStr ''box1'' \<and>
        (\<forall>r\<in>set (readings_of ''box1'' (db world0)). sl_timestamp r < now_at (env_at 100) 0) \<longrightarrow>
          sensor = Some (reading_row_of (env_at 100) body1)"
    by (elim allE)
  with run box have "sensor = Some (reading_row_of (env_at 100) body1)"
    by (elim impE) (intro conjI)
  with l have c: "\<exists>comps. fst (latest_handler (env_at 150) ''box1'' world1) =
      Latest (Some (reading_row_of (env_at 100) body1)) comps"
    by blast
  from ok rs a b c ev run show ?thesis by (intro conjI)
qed

text \<open>
  Claim C10. The compartment rows of the state query are the four most recent rows of the
  box whatever their compartment: they are rows of the box, most recent first, and no row
  left out is newer than one returned. When at least four rows of one compartment are
  newer than every row of the box's other compartments, all four rows returned belong to
  that compartment, and a row of any other compartment of the box, though it reported, is
  not returned. The result is not one latest row per compartment.
\<close>

theorem latest_compartments_not_per_compartment:
  assumes "store_ok e w 2"
    and "4 \<le> length (filter
           (\<lambda>r. cs_compartment_id r = cid \<and>
                (\<forall>y\<in>set (compartment_rows_of boxId (db w)).
                   cs_compartment_id y \<noteq> cid \<longrightarrow> cs_timestamp y < cs_timestamp r))
           (compartment_rows_of boxId (db w)))"
  shows "\<exists>sensor comps.
     fst (latest_handler e boxId w) = Latest sensor comps \<and>
     length comps = 4 \<and>
     (\<forall>x\<in>set comps. cs_compartment_id x = cid) \<and>
     (\<forall>y\<in>set (compartment_rows_of boxId (db w)). cs_compartment_id y \<noteq> cid \<longrightarrow> y \<notin> set comps) \<and>
     mset comps \<subseteq># mset (compartment_rows_of boxId (db w)) \<and>
     sorted_wrt (\<lambda>a b. cs_timestamp b \<le> cs_timestamp a) comps \<and>
     (\<forall>x\<in>set comps. \<forall>y\<in>#mset (compartment_rows_of boxId (db w)) - mset comps.
        cs_timestamp y \<le> cs_timestamp x)"
proof -
  let ?rows = "compartment_rows_of boxId (db w)"
  let ?comps = "take 4 (order_by_desc cs_timestamp ?rows)"
  have same: "\<forall>x\<in>set ?comps. cs_compartment_id x = cid"
    using assms(2) by (rule limit_dominated)
  have "4 \<le> length ?rows"
    using assms(2) length_filter_le le_trans by blast
  then have len: "length ?comps = 4"
    by (simp only: limit_length)
  have rest: "mset ?comps \<subseteq># mset ?rows"
    "sorted_wrt (\<lambda>a b. cs_timestamp b \<le> cs_timestamp a) ?comps"
    "\<forall>x\<in>set ?comps. \<forall>y\<in>#mset ?rows - mset ?comps. cs_timestamp y \<le> cs_timestamp x"
    using limit_newest[of _ 4 cs_timestamp ?rows]
    by (simp_all only: limit_sorted limit_subset) blast
  have "\<exists>sensor. fst (latest_handler e boxId w) = Latest sensor ?comps"
    by (simp add: latest_handler_ok[OF assms(1)])
  with same len rest show ?thesis by blast
qed

theorem latest_compartments_not_per_compartment_witness:
  "store_ok (env_at 200000) world_log 2 \<and>
   length (filter
           (\<lambda>r. cs_compartment_id r = JNum 1 \<and>
                (\<forall>y\<in>set (compartment_rows_of ''box1'' (db world_log)).
                   cs_compartment_id y \<noteq> JNum 1 \<longrightarrow> cs_timestamp y < cs_timestamp r))
           (compartment_rows_of ''box1'' (db world_log))) = 4 \<and>
   (\<exists>sensor comps.
     fst (latest_handler (env_at 200000) ''box1'' world_log) = Latest sensor comps \<and>
     length comps = 4 \<and>
     (\<forall>x\<in>set comps. cs_compartment_id x = JNum 1) \<and>
     (\<forall>y\<in>set (compartment_rows_of ''box1'' (db world_log)).
        cs_compartment_id y \<noteq> JNum 1 \<longrightarrow> y \<notin> set comps) \<and>
     mset comps \<subseteq># mset (compartment_rows_of ''box1'' (db world_log)) \<and>
     sorted_wrt (\<lambda>a b. cs_timestamp b \<le> cs_timestamp a) comps \<and>
     (\<forall>x\<in>set comps. \<forall>y\<in>#mset (compartment_rows_of ''box1'' (db world_log)) - mset comps.
        cs_timestamp y \<le> cs_timestamp x)) \<and>
   \<lparr>cs_box_id = JStr ''box1'', cs_compartment_id = JNum 2, cs_is_open = 0,
     cs_timestamp = 100000\<rparr> \<in> set (compartment_rows_of ''box1'' (db world_log)) \<and>
   (\<exists>sensor. fst (latest_handler (env_at 200000) ''box1'' world_log) =
     Latest sensor
       [\<lparr>cs_box_id = JStr ''box1'', cs_compartment_id = JNum 1, cs_is_open = 0,
         cs_timestamp = 196400\<rparr>,
        \<lparr>cs_box_id = JStr ''box1'', cs_compartment_id = JNum 1, cs_is_open = 1,
         cs_timestamp = 130000\<rparr>,
        \<lparr>cs_box_id = JStr ''box1'', cs_compartment_id = JNum 1, cs_is_open = 0,
         cs_timestamp = 120000\<rparr>,
        \<lparr>cs_box_id = JStr ''box1'', cs_compartment_id = JNum 1, cs_is_open = 1,
         cs_timestamp = 110000\<rparr>])"
proof -
  have ok: "store_ok (env_at 200000) world_log 2"
    by (simp add: store_ok_def env_at_def world_log_def numeral_2_eq_2)
  have rows: "compartment_rows_of ''box1'' (db world_log) =
       [\<lparr>cs_box_id = JStr ''box1'', cs_compartment_id = JNum 2, cs_is_open = 0,
         cs_timestamp = 100000\<rparr>,
        \<lparr>cs_box_id = JStr ''box1'', cs_compartment_id = JNum 1, cs_is_open = 1,
         cs_timestamp = 110000\<rparr>,
        \<lparr>cs_box_id = JStr ''box1'', cs_compartment_id = JNum 1, cs_is_open = 0,
         cs_timestamp = 120000\<rparr>,
        \<lparr>cs_box_id = JStr ''box1'', cs_compartment_id = JNum 1, cs_is_open = 1,
         cs_timestamp = 130000\<rparr>,
        \<lparr>cs_box_id = JStr ''box1'', cs_compartment_id = JNum 1, cs_is_open = 0,
         cs_timestamp = 196400\<rparr>]"
    by (simp add: compartment_rows_of_def world_log_def sql_eq_def)
  have four: "length (filter
           (\<lambda>r. cs_compartment_id r = JNum 1 \<and>
                (\<forall>y\<in>set (compartment_rows_of ''box1'' (db world_log)).
                   cs_compartment_id y \<noteq> JNum 1 \<longrightarrow> cs_timestamp y < cs_timestamp r))
           (compartment_rows_of ''box1'' (db world_log))) = 4"
    unfolding rows by simp
  then have hyp: "4 \<le> length (filter
           (\<lambda>r. cs_compartment_id r = JNum 1 \<and>
                (\<forall>y\<in>set (compartment_rows_of ''box1'' (db world_log)).
                   cs_compartment_id y \<noteq> JNum 1 \<longrightarrow> cs_timestamp y < cs_timestamp r))
           (compartment_rows_of ''box1'' (db world_log)))"
    by simp
  have mem: "\<lparr>cs_box_id = JStr ''box1'', cs_compartment_id = JNum 2, cs_is_open = 0,
     cs_timestamp = 100000\<rparr> \<in> set (compartment_rows_of ''box1'' (db world_log))"
    unfolding rows by simp
  have ev: "\<exists>sensor. fst (latest_handler (env_at 200000) ''box1'' world_log) =
     Latest sensor
       [\<lparr>cs_box_id = JStr ''box1'', cs_compartment_id = JNum 1, cs_is_open = 0,
         cs_timestamp = 196400\<rparr>,
        \<lparr>cs_box_id = JStr ''box1'', cs_compartment_id = JNum 1, cs_is_open = 1,
         cs_timestamp = 130000\<rparr>,
        \<lparr>cs_box_id = JStr ''box1'', cs_compartment_id = JNum 1, cs_is_open = 0,
         cs_timestamp = 120000\<rparr>,
        \<lparr>cs_box_id = JStr ''box1'', cs_compartment_id = JNum 1, cs_is_open = 1,
         cs_timestamp = 110000\<rparr>]"
    by (simp add: run_defs world_log_def)
  from ok four latest_compartments_not_per_compartment[OF ok hyp] mem ev show ?thesis
    by (intro conjI)
qed

subsection \<open>History query\<close>

text \<open>
  Claim C6. When the store does not fail, the history query answers with exactly the
  readings of the box stamped later than 24 hours before the store's clock at the
  moment the statement runs, each as often as it is in the table, most recent first, and
  leaves the store as it is. No reading stamped 24 hours before that moment or earlier
  is returned, so none stamped 25 hours before; every reading of the box stamped one hour
  before is returned. Right after an ingestion for the box that succeeded at clock \<open>t\<close>,
  the reading just ingested is returned exactly when \<open>t\<close> is later than 24 hours before
  the query's clock. The statement has no upper bound; when no reading in the table is
  stamped later than the clock (timestamps are \<^verbatim>\<open>NOW()\<close> at insertion), the readings
  returned are exactly those of the box within the trailing 24 hours.
\<close>

theorem history_window:
  assumes "store_ok e w 1"
  shows "\<exists>rows.
     fst (history_handler e boxId w) = Sensor_data rows \<and>
     db (snd (history_handler e boxId w)) = db w \<and>
     mset rows = filter_mset (\<lambda>r. now_at e 0 - 24 * 3600 < sl_timestamp r)
                   (mset (readings_of boxId (db w))) \<and>
     sorted_wrt (\<lambda>a b. sl_timestamp b \<le> sl_timestamp a) rows \<and>
     (\<forall>r. sl_timestamp r \<le> now_at e 0 - 24 * 3600 \<longrightarrow> r \<notin> set rows) \<and>
     (\<forall>r. sl_timestamp r = now_at e 0 - 25 * 3600 \<longrightarrow> r \<notin> set rows) \<and>
     (\<forall>r\<in>set (readings_of boxId (db w)).
        sl_timestamp r = now_at e 0 - 1 * 3600 \<longrightarrow> r \<in> set rows) \<and>
     (\<forall>e0 body w0 m.
        sensor_data_handler e0 body w0 = (Ack m, w) \<and> js_prop body ''boxId'' = JStr boxId \<longrightarrow>
          (reading_row_of e0 body \<in> set rows \<longleftrightarrow> now_at e 0 - 24 * 3600 < now_at e0 0)) \<and>
     ((\<forall>r\<in>set (sensor_logs (db w)). sl_timestamp r \<le> now_at e 0) \<longrightarrow>
        (\<forall>r. r \<in> set rows \<longleftrightarrow>
           r \<in> set (readings_of boxId (db w)) \<and>
           now_at e 0 - 24 * 3600 < sl_timestamp r \<and> sl_timestamp r \<le> now_at e 0))"
proof -
  let ?rows = "order_by_desc sl_timestamp
        (filter (\<lambda>r. now_at e 0 - interval_24_hour < sl_timestamp r) (readings_of boxId (db w)))"
  have h: "fst (history_handler e boxId w) = Sensor_data ?rows"
    "db (snd (history_handler e boxId w)) = db w"
    by (simp_all add: history_handler_ok[OF assms])
  have m: "mset ?rows = filter_mset (\<lambda>r. now_at e 0 - 24 * 3600 < sl_timestamp r)
                   (mset (readings_of boxId (db w)))"
    by (simp add: mset_order_by_desc interval_24_hour_def)
  have s: "sorted_wrt (\<lambda>a b. sl_timestamp b \<le> sl_timestamp a) ?rows"
    by (rule sorted_order_by_desc)
  have mem: "r \<in> set ?rows \<longleftrightarrow>
      r \<in> set (readings_of boxId (db w)) \<and> now_at e 0 - 24 * 3600 < sl_timestamp r" for r
  proof -
    have "set ?rows = set_mset (mset ?rows)" by simp
    also have "\<dots> = {r \<in> set (readings_of boxId (db w)). now_at e 0 - 24 * 3600 < sl_timestamp r}"
      unfolding m by simp
    finally show ?thesis by simp
  qed
  have sub: "set (readings_of boxId (db w)) \<subseteq> set (sensor_logs (db w))"
    by (auto simp: readings_of_def)
  have ingested: "reading_row_of e0 body \<in> set ?rows \<longleftrightarrow> now_at e 0 - 24 * 3600 < now_at e0 0"
    if "sensor_data_handler e0 body w0 = (Ack m, w) \<and> js_prop body ''boxId'' = JStr boxId"
    for e0 body w0 m
  proof -
    from that have "sensor_data_handler e0 body w0 = (Ack m, w)"
      and "js_prop body ''boxId'' = JStr boxId"
      by simp_all
    from readings_after_ingestion[OF this]
    have "reading_row_of e0 body \<in> set (readings_of boxId (db w))"
      by simp
    moreover have "sl_timestamp (reading_row_of e0 body) = now_at e0 0"
      by (simp add: reading_row_of_def)
    ultimately show ?thesis by (simp add: mem)
  qed
  have old: "\<forall>r. sl_timestamp r \<le> now_at e 0 - 24 * 3600 \<longrightarrow> r \<notin> set ?rows"
    "\<forall>r. sl_timestamp r = now_at e 0 - 25 * 3600 \<longrightarrow> r \<notin> set ?rows"
    "\<forall>r\<in>set (readings_of boxId (db w)).
        sl_timestamp r = now_at e 0 - 1 * 3600 \<longrightarrow> r \<in> set ?rows"
    by (auto simp: mem)
  have window: "(\<forall>r\<in>set (sensor_logs (db w)). sl_timestamp r \<le> now_at e 0) \<longrightarrow>
        (\<forall>r. r \<in> set ?rows \<longleftrightarrow>
           r \<in> set (readings_of boxId (db w)) \<and>
           now_at e 0 - 24 * 3600 < sl_timestamp r \<and> sl_timestamp r \<le> now_at e 0)"
    using sub by (auto simp: mem)
  from h m s old ingested window show ?thesis
    by (intro exI[of _ ?rows]) blast
qed

theorem history_window_witness:
  "store_ok (env_at 200000) world_log 1 \<and>
   readings_of ''box1'' (db world_log) =
     [\<lparr>sl_box_id = JStr ''box1'', sl_temperature = JNum 20, sl_humidity = JNum 41,
       sl_timestamp = 110000\<rparr>,
      \<lparr>sl_box_id = JStr ''box1'', sl_temperature = JNum 21, sl_humidity = JNum 40,
       sl_timestamp = 196400\<rparr>] \<and>
   now_at (env_at 200000) 0 - 25 * 3600 = 110000 \<and>
   now_at (env_at 200000) 0 - 1 * 3600 = 196400 \<and>
   (\<exists>rows. fst (history_handler (env_at 200000) ''box1'' world_log) = Sensor_data rows \<and>
      \<lparr>sl_box_id = JStr ''box1'', sl_temperature = JNum 20, sl_humidity = JNum 41,
        sl_timestamp = 110000\<rparr> \<notin> set rows \<and>
      \<lparr>sl_box_id = JStr ''box1'', sl_temperature = JNum 21, sl_humidity = JNum 40,
        sl_timestamp = 196400\<rparr> \<in> set rows \<and>
      sorted_wrt (\<lambda>a b. sl_timestamp b \<le> sl_timestamp a) rows) \<and>
   fst (history_handler (env_at 200000) ''box1'' world_log) =
     Sensor_data [\<lparr>sl_box_id = JStr ''box1'', sl_temperature = JNum 21, sl_humidity = JNum 40,
                   sl_timestamp = 196400\<rparr>] \<and>
   sensor_data_handler (env_at 100) body1 world0 = (Ack ''Data received successfully'', world1) \<and>
   store_ok (env_at (100 + 1 * 3600)) world1 1 \<and>
   (\<exists>rows. fst (history_handler (env_at (100 + 1 * 3600)) ''box1'' world1) = Sensor_data rows \<and>
      reading_row_of (env_at 100) body1 \<in> set rows) \<and>
   store_ok (env_at (100 + 25 * 3600)) world1 1 \<and>
   (\<exists>rows. fst (history_handler (env_at (100 + 25 * 3600)) ''box1'' world1) = Sensor_data rows \<and>
      reading_row_of (env_at 100) body1 \<notin> set rows)"
proof -
  have ok: "store_ok (env_at 200000) world_log 1" "store_ok (env_at (100 + 1 * 3600)) world1 1"
    "store_ok (env_at (100 + 25 * 3600)) world1 1"
    by (simp_all add: store_ok_def env_at_def world_log_def world1_def)
  have ev: "readings_of ''box1'' (db world_log) =
     [\<lparr>sl_box_id = JStr ''box1'', sl_temperature = JNum 20, sl_humidity = JNum 41,
       sl_timestamp = 110000\<rparr>,
      \<lparr>sl_box_id = JStr ''box1'', sl_temperature = JNum 21, sl_humidity = JNum 40,
       sl_timestamp = 196400\<rparr>]"
    "now_at (env_at 200000) 0 - 25 * 3600 = 110000"
    "now_at (env_at 200000) 0 - 1 * 3600 = 196400"
    "fst (history_handler (env_at 200000) ''box1'' world_log) =
     Sensor_data [\<lparr>sl_box_id = JStr ''box1'', sl_temperature = JNum 21, sl_humidity = JNum 40,
                   sl_timestamp = 196400\<rparr>]"
    by (simp_all add: run_defs world_log_def readings_of_def)
  have run: "sensor_data_handler (env_at 100) body1 world0 =
      (Ack ''Data received successfully'', world1)"
    by (simp add: run_defs world1_def)
  have box: "js_prop body1 ''boxId'' = JStr ''box1''"
    by (simp add: js_prop_def body1_def)
  have clock: "now_at (env_at (100 + 1 * 3600)) 0 - 24 * 3600 < now_at (env_at 100) 0"
    "\<not> now_at (env_at (100 + 25 * 3600)) 0 - 24 * 3600 < now_at (env_at 100) 0"
    by (simp_all add: env_at_def)
  from history_window[OF ok(1), of "''box1''"] obtain rows where
    a: "fst (history_handler (env_at 200000) ''box1'' world_log) = Sensor_data rows"
    "sorted_wrt (\<lambda>a b. sl_timestamp b \<le> sl_timestamp a) rows"
    and old: "\<forall>r. sl_timestamp r = now_at (env_at 200000) 0 - 25 * 3600 \<longrightarrow> r \<notin> set rows"
    and new: "\<forall>r\<in>set (readings_of ''box1'' (db world_log)).
        sl_timestamp r = now_at (env_at 200000) 0 - 1 * 3600 \<longrightarrow> r \<in> set rows"
    by blast
  from old have "\<lparr>sl_box_id = JStr ''box1'', sl_temperature = JNum 20, sl_humidity = JNum 41,
        sl_timestamp = 110000\<rparr> \<notin> set rows"
    by (simp add: env_at_def)
  moreover from new have "\<lparr>sl_box_id = JStr ''box1'', sl_temperature = JNum 21,
        sl_humidity = JNum 40, sl_timestamp = 196400\<rparr> \<in> set rows"
    by (simp add: ev(1) env_at_def)
  ultimately have A: "\<exists>rows. fst (history_handler (env_at 200000) ''box1'' world_log) = Sensor_data rows \<and>
      \<lparr>sl_box_id = JStr ''box1'', sl_temperature = JNum 20, sl_humidity = JNum 41,
        sl_timestamp = 110000\<rparr> \<notin> set rows \<and>
      \<lparr>sl_box_id = JStr ''box1'', sl_temperature = JNum 21, sl_humidity = JNum 40,
        sl_timestamp = 196400\<rparr> \<in> set rows \<and>
      sorted_wrt (\<lambda>a b. sl_timestamp b \<le> sl_timestamp a) rows"
    using a by blast
  have B: "\<exists>rows. fst (history_handler (env_at (100 + 1 * 3600)) ''box1'' world1) = Sensor_data rows \<and>
      reading_row_of (env_at 100) body1 \<in> set rows"
  proof -
    from history_window[OF ok(2), of "''box1''"] obtain rows where
      r: "fst (history_handler (env_at (100 + 1 * 3600)) ''box1'' world1) = Sensor_data rows"
      and i: "\<forall>e0 body w0 m.
        sensor_data_handler e0 body w0 = (Ack m, world1) \<and> js_prop body ''boxId'' = JStr ''box1'' \<longrightarrow>
          (reading_row_of e0 body \<in> set rows \<longleftrightarrow>
             now_at (env_at (100 + 1 * 3600)) 0 - 24 * 3600 < now_at e0 0)"
      by blast
    from i have "sensor_data_handler (env_at 100) body1 world0 =
          (Ack ''Data received successfully'', world1) \<and> js_prop body1 ''boxId'' = JStr ''box1'' \<longrightarrow>
          (reading_row_of (env_at 100) body1 \<in> set rows \<longleftrightarrow>
             now_at (env_at (100 + 1 * 3600)) 0 - 24 * 3600 < now_at (env_at 100) 0)"
      by (elim allE)
    with run box clock(1) have "reading_row_of (env_at 100) body1 \<in> set rows" by blast
    with r show ?thesis by blast
  qed
  have C: "\<exists>rows. fst (history_handler (env_at (100 + 25 * 3600)) ''box1'' world1) = Sensor_data rows \<and>
      reading_row_of (env_at 100) body1 \<notin> set rows"
  proof -
    from history_window[OF ok(3), of "''box1''"] obtain rows where
      r: "fst (history_handler (env_at (100 + 25 * 3600)) ''box1'' world1) = Sensor_data rows"
      and i: "\<forall>e0 body w0 m.
        sensor_data_handler e0 body w0 = (Ack m, world1) \<and> js_prop body ''boxId'' = JStr ''box1'' \<longrightarrow>
          (reading_row_of e0 body \<in> set rows \<longleftrightarrow>
             now_at (env_at (100 + 25 * 3600)) 0 - 24 * 3600 < now_at e0 0)"
      by blast
    from i have "sensor_data_handler (env_at 100) body1 world0 =
          (Ack ''Data received successfully'', world1) \<and> js_prop body1 ''boxId'' = JStr ''box1'' \<longrightarrow>
          (reading_row_of (env_at 100) body1 \<in> set rows \<longleftrightarrow>
             now_at (env_at (100 + 25 * 3600)) 0 - 24 * 3600 < now_at (env_at 100) 0)"
      by (elim allE)
    with run box clock(2) have "reading_row_of (env_at 100) body1 \<notin> set rows" by blast
    with r show ?thesis by blast
  qed
  from ok(1) ev(1,2,3) A ev(4) run ok(2) B ok(3) C show ?thesis by (intro conjI)
qed

subsection \<open>Schedule query\<close>

text \<open>
  Claim C7. When the store does not fail, the schedule query answers with exactly the
  schedule rows of the box whose \<^verbatim>\<open>is_taken\<close> is 0, each as often as it is in the table,
  ordered by \<^verbatim>\<open>scheduled_time\<close> ascending, and leaves the store as it is. It never returns
  a taken row, and the answer is the same whatever the store's clock: overdue and future
  entries are both returned.
\<close>

theorem schedule_untaken_ascending:
  assumes "store_ok e w 1"
  shows "\<exists>rows.
     fst (schedule_handler e boxId w) = Schedule_data rows \<and>
     db (snd (schedule_handler e boxId w)) = db w \<and>
     mset rows = filter_mset (\<lambda>r. ms_is_taken r = 0) (mset (schedule_of boxId (db w))) \<and>
     sorted_wrt (\<lambda>a b. ms_scheduled_time a \<le> ms_scheduled_time b) rows \<and>
     (\<forall>r\<in>set rows. ms_is_taken r = 0) \<and>
     (\<forall>clock. fst (schedule_handler (e\<lparr>now_at := clock\<rparr>) boxId w) = Schedule_data rows)"
proof -
  let ?rows = "order_by_asc ms_scheduled_time
        (filter (\<lambda>r. ms_is_taken r = 0) (schedule_of boxId (db w)))"
  have ok: "store_ok (e\<lparr>now_at := clock\<rparr>) w 1" for clock
    using assms by (simp add: store_ok_def)
  have h: "fst (schedule_handler e boxId w) = Schedule_data ?rows"
    "db (snd (schedule_handler e boxId w)) = db w"
    "\<forall>clock. fst (schedule_handler (e\<lparr>now_at := clock\<rparr>) boxId w) = Schedule_data ?rows"
    by (simp_all add: schedule_handler_ok[OF assms] schedule_handler_ok[OF ok])
  have m: "mset ?rows = filter_mset (\<lambda>r. ms_is_taken r = 0) (mset (schedule_of boxId (db w)))"
    by (simp add: mset_order_by_asc)
  have s: "sorted_wrt (\<lambda>a b. ms_scheduled_time a \<le> ms_scheduled_time b) ?rows"
    by (rule sorted_order_by_asc)
  have u: "\<forall>r\<in>set ?rows. ms_is_taken r = 0"
  proof -
    have "set ?rows = set_mset (mset ?rows)" by simp
    also have "\<dots> \<subseteq> {r. ms_is_taken r = 0}" unfolding m by auto
    finally show ?thesis by blast
  qed
  from h m s u show ?thesis by blast
qed

theorem schedule_untaken_ascending_witness:
  "store_ok (env_at 400) world_sched 1 \<and>
   (\<exists>rows.
     fst (schedule_handler (env_at 400) ''box1'' world_sched) = Schedule_data rows \<and>
     db (snd (schedule_handler (env_at 400) ''box1'' world_sched)) = db world_sched \<and>
     mset rows = filter_mset (\<lambda>r. ms_is_taken r = 0)
                   (mset (schedule_of ''box1'' (db world_sched))) \<and>
     sorted_wrt (\<lambda>a b. ms_scheduled_time a \<le> ms_scheduled_time b) rows \<and>
     (\<forall>r\<in>set rows. ms_is_taken r = 0) \<and>
     (\<forall>clock. fst (schedule_handler ((env_at 400)\<lparr>now_at := clock\<rparr>) ''box1'' world_sched) =
        Schedule_data rows)) \<and>
   fst (schedule_handler (env_at 400) ''box1'' world_sched) =
     Schedule_data
       [\<lparr>ms_id = JNum 3, ms_box_id = JStr ''box1'', ms_scheduled_time = 100,
         ms_is_taken = 0, ms_taken_time = None\<rparr>,
        \<lparr>ms_id = JNum 1, ms_box_id = JStr ''box1'', ms_scheduled_time = 500,
         ms_is_taken = 0, ms_taken_time = None\<rparr>]"
proof -
  have ok: "store_ok (env_at 400) world_sched 1"
    by (simp add: store_ok_def env_at_def world_sched_def)
  have ev: "fst (schedule_handler (env_at 400) ''box1'' world_sched) =
     Schedule_data
       [\<lparr>ms_id = JNum 3, ms_box_id = JStr ''box1'', ms_scheduled_time = 100,
         ms_is_taken = 0, ms_taken_time = None\<rparr>,
        \<lparr>ms_id = JNum 1, ms_box_id = JStr ''box1'', ms_scheduled_time = 500,
         ms_is_taken = 0, ms_taken_time = None\<rparr>]"
    by (simp add: run_defs world_sched_def)
  from ok schedule_untaken_ascending[OF ok, of "''box1''"] ev show ?thesis
    by (intro conjI)
qed

subsection \<open>Schedule completion\<close>

lemma complete_handler_db:
  assumes "\<not> nullish body" and "store_ok e w 1" and "complete_handler e body w = (r, w')"
  shows "r = Ack ''Medication marked as taken''"
    and "medication_schedule (db w') =
           map (mark_taken (js_prop body ''scheduleId'') (now_at e 0)) (medication_schedule (db w))"
    and "sensor_logs (db w') = sensor_logs (db w)"
    and "compartment_status (db w') = compartment_status (db w)"
    and "trace w' = trace w @ [Acquire (hd (idle w)),
           Query (hd (idle w)) (Update_complete (js_prop body ''scheduleId'')),
           Release (hd (idle w))]"
  using assms(3) unfolding complete_handler_ok[OF assms(1,2)]
  by (auto simp: mark_taken_def[abs_def])



text \<open>
  Claim C8. For every \<^verbatim>\<open>scheduleId\<close> and every content of the store, the completion
  handler (the store not failing) sends the \<^verbatim>\<open>UPDATE\<close> and answers with the
  acknowledgement: it looks neither for the row nor at its \<^verbatim>\<open>is_taken\<close>. The write is
  issued: every row whose id is the \<^verbatim>\<open>scheduleId\<close> of the request is written with
  \<^verbatim>\<open>is_taken = 1\<close> and \<^verbatim>\<open>taken_time\<close> the store's clock, whether it was taken already or
  not; every other row is either left as it is or written in that same way, and the
  table keeps its length. When the statement can match no row (the \<^verbatim>\<open>scheduleId\<close> is
  missing or null, which the store compares as NULL; or it is a number and every id in
  the table is another number) the store is as before, and the answer is the
  acknowledgement all the same. The other two tables are never touched.
\<close>

theorem completion_without_validation:
  assumes "\<not> nullish body" and "store_ok e w 1"
  shows "fst (complete_handler e body w) = Ack ''Medication marked as taken'' \<and>
         (\<forall>d. fst (complete_handler e body (w\<lparr>db := d\<rparr>)) = Ack ''Medication marked as taken'') \<and>
         (\<exists>c. trace (snd (complete_handler e body w)) =
                trace w @ [Acquire c, Query c (Update_complete (js_prop body ''scheduleId'')),
                           Release c]) \<and>
         length (medication_schedule (db (snd (complete_handler e body w)))) =
           length (medication_schedule (db w)) \<and>
         (\<forall>i<length (medication_schedule (db w)).
            \<not> is_sql_null (js_prop body ''scheduleId'') \<and>
            ms_id (medication_schedule (db w) ! i) = js_prop body ''scheduleId'' \<longrightarrow>
              medication_schedule (db (snd (complete_handler e body w))) ! i =
                (medication_schedule (db w) ! i)
                  \<lparr>ms_is_taken := 1, ms_taken_time := Some (now_at e 0)\<rparr>) \<and>
         (\<forall>i<length (medication_schedule (db w)).
            medication_schedule (db (snd (complete_handler e body w))) ! i =
              medication_schedule (db w) ! i \<or>
            medication_schedule (db (snd (complete_handler e body w))) ! i =
              (medication_schedule (db w) ! i)
                \<lparr>ms_is_taken := 1, ms_taken_time := Some (now_at e 0)\<rparr>) \<and>
         (is_sql_null (js_prop body ''scheduleId'') \<longrightarrow>
            db (snd (complete_handler e body w)) = db w) \<and>
         (\<forall>n. js_prop body ''scheduleId'' = JNum n \<and>
              (\<forall>row\<in>set (medication_schedule (db w)). \<exists>m. ms_id row = JNum m \<and> m \<noteq> n) \<longrightarrow>
            db (snd (complete_handler e body w)) = db w) \<and>
         sensor_logs (db (snd (complete_handler e body w))) = sensor_logs (db w) \<and>
         compartment_status (db (snd (complete_handler e body w))) = compartment_status (db w)"
proof -
  let ?s = "js_prop body ''scheduleId''"
  let ?rows = "medication_schedule (db w)"
  let ?w' = "snd (complete_handler e body w)"
  have ok: "store_ok e (w\<lparr>db := d\<rparr>) 1" for d
    using assms(2) by (simp add: store_ok_def)
  have run: "complete_handler e body w = (fst (complete_handler e body w), ?w')"
    by simp
  note h = complete_handler_db[OF assms run]
  have ack: "\<forall>d. fst (complete_handler e body (w\<lparr>db := d\<rparr>)) = Ack ''Medication marked as taken''"
    by (simp add: complete_handler_ok[OF assms(1) ok])
  have tr: "\<exists>c. trace ?w' = trace w @ [Acquire c, Query c (Update_complete ?s), Release c]"
    using h(5) by blast
  have len: "length (medication_schedule (db ?w')) = length ?rows"
    by (simp add: h(2))
  have nth: "medication_schedule (db ?w') ! i = mark_taken ?s (now_at e 0) (?rows ! i)"
    if "i < length ?rows" for i
    using that by (simp add: h(2))
  have written: "medication_schedule (db ?w') ! i =
      (?rows ! i)\<lparr>ms_is_taken := 1, ms_taken_time := Some (now_at e 0)\<rparr>"
    if "i < length ?rows" and "\<not> is_sql_null ?s \<and> ms_id (?rows ! i) = ?s" for i
    using that by (simp add: nth mark_taken_def sql_eq_def)
  have either: "medication_schedule (db ?w') ! i = ?rows ! i \<or>
      medication_schedule (db ?w') ! i =
        (?rows ! i)\<lparr>ms_is_taken := 1, ms_taken_time := Some (now_at e 0)\<rparr>"
    if "i < length ?rows" for i
    using that by (simp add: nth mark_taken_def)
  have same: "db ?w' = db w" if "\<forall>row\<in>set ?rows. \<not> sql_eq (ms_id row) ?s"
  proof -
    from that have "map (mark_taken ?s (now_at e 0)) ?rows = ?rows"
      by (simp add: map_idI mark_taken_def)
    with h(2) have "medication_schedule (db ?w') = ?rows" by simp
    with h(3,4) show ?thesis by simp
  qed
  have null: "db ?w' = db w" if "is_sql_null ?s"
    using that by (intro same) (simp add: sql_eq_def)
  have other: "db ?w' = db w"
    if "?s = JNum n \<and> (\<forall>row\<in>set ?rows. \<exists>m. ms_id row = JNum m \<and> m \<noteq> n)" for n
    using that by (intro same) (auto simp: sql_eq_def)
  from h(1) ack tr len written either null other h(3,4) show ?thesis
    by (simp only: fst_conv) blast
qed

theorem completion_without_validation_witness:
  "\<not> nullish (body_complete 2) \<and> \<not> nullish (body_complete 1) \<and>
   \<not> nullish (body_complete 99) \<and> \<not> nullish (JObj []) \<and>
   store_ok (env_at 400) world_sched 1 \<and>
   medication_schedule (db world_sched) ! 1 =
     \<lparr>ms_id = JNum 2, ms_box_id = JStr ''box1'', ms_scheduled_time = 300,
      ms_is_taken = 1, ms_taken_time = Some 310\<rparr> \<and>
   fst (complete_handler (env_at 400) (body_complete 2) world_sched) =
     Ack ''Medication marked as taken'' \<and>
   (\<exists>c. trace (snd (complete_handler (env_at 400) (body_complete 2) world_sched)) =
          trace world_sched @
            [Acquire c, Query c (Update_complete (js_prop (body_complete 2) ''scheduleId'')),
             Release c]) \<and>
   medication_schedule (db (snd (complete_handler (env_at 400) (body_complete 2) world_sched))) ! 1 =
     (medication_schedule (db world_sched) ! 1)
       \<lparr>ms_is_taken := 1, ms_taken_time := Some (now_at (env_at 400) 0)\<rparr> \<and>
   medication_schedule (db (snd (complete_handler (env_at 400) (body_complete 2) world_sched))) =
     [\<lparr>ms_id = JNum 1, ms_box_id = JStr ''box1'', ms_scheduled_time = 500,
       ms_is_taken = 0, ms_taken_time = None\<rparr>,
      \<lparr>ms_id = JNum 2, ms_box_id = JStr ''box1'', ms_scheduled_time = 300,
       ms_is_taken = 1, ms_taken_time = Some 400\<rparr>,
      \<lparr>ms_id = JNum 3, ms_box_id = JStr ''box1'', ms_scheduled_time = 100,
       ms_is_taken = 0, ms_taken_time = None\<rparr>,
      \<lparr>ms_id = JNum 4, ms_box_id = JStr ''box2'', ms_scheduled_time = 200,
       ms_is_taken = 0, ms_taken_time = None\<rparr>] \<and>
   medication_schedule (db (snd (complete_handler (env_at 400) (body_complete 1) world_sched))) ! 0 =
     (medication_schedule (db world_sched) ! 0)
       \<lparr>ms_is_taken := 1, ms_taken_time := Some (now_at (env_at 400) 0)\<rparr> \<and>
   medication_schedule (db (snd (complete_handler (env_at 400) (body_complete 1) world_sched))) ! 0 =
     \<lparr>ms_id = JNum 1, ms_box_id = JStr ''box1'', ms_scheduled_time = 500,
      ms_is_taken = 1, ms_taken_time = Some 400\<rparr> \<and>
   map ms_id (medication_schedule (db world_sched)) = [JNum 1, JNum 2, JNum 3, JNum 4] \<and>
   js_prop (body_complete 99) ''scheduleId'' = JNum 99 \<and>
   fst (complete_handler (env_at 400) (body_complete 99) world_sched) =
     Ack ''Medication marked as taken'' \<and>
   db (snd (complete_handler (env_at 400) (body_complete 99) world_sched)) = db world_sched \<and>
   js_prop (JObj []) ''scheduleId'' = JUndefined \<and>
   fst (complete_handler (env_at 400) (JObj []) world_sched) =
     Ack ''Medication marked as taken'' \<and>
   db (snd (complete_handler (env_at 400) (JObj []) world_sched)) = db world_sched"
proof -
  let ?rows = "medication_schedule (db world_sched)"
  have h: "\<not> nullish (body_complete 2)" "\<not> nullish (body_complete 1)"
    "\<not> nullish (body_complete 99)" "\<not> nullish (JObj [])"
    by (simp_all add: body_complete_def nullish_def)
  have ok: "store_ok (env_at 400) world_sched 1"
    by (simp add: store_ok_def env_at_def world_sched_def)
  have sid: "js_prop (body_complete 2) ''scheduleId'' = JNum 2"
    "js_prop (body_complete 1) ''scheduleId'' = JNum 1"
    "js_prop (body_complete 99) ''scheduleId'' = JNum 99"
    "js_prop (JObj []) ''scheduleId'' = JUndefined"
    by (simp_all add: body_complete_def js_prop_def)
  have rows: "?rows ! 1 =
     \<lparr>ms_id = JNum 2, ms_box_id = JStr ''box1'', ms_scheduled_time = 300,
      ms_is_taken = 1, ms_taken_time = Some 310\<rparr>"
    "map ms_id ?rows = [JNum 1, JNum 2, JNum 3, JNum 4]"
    by (simp_all add: world_sched_def)
  have idx: "1 < length ?rows" "0 < length ?rows"
    "ms_id (?rows ! 1) = JNum 2" "ms_id (?rows ! 0) = JNum 1"
    "\<not> is_sql_null (JNum 2)" "\<not> is_sql_null (JNum 1)" "is_sql_null JUndefined"
    by (simp_all add: world_sched_def)
  have others: "\<forall>row\<in>set ?rows. \<exists>m. ms_id row = JNum m \<and> m \<noteq> 99"
    by (simp add: world_sched_def)
  have ev: "medication_schedule
      (db (snd (complete_handler (env_at 400) (body_complete 2) world_sched))) =
     [\<lparr>ms_id = JNum 1, ms_box_id = JStr ''box1'', ms_scheduled_time = 500,
       ms_is_taken = 0, ms_taken_time = None\<rparr>,
      \<lparr>ms_id = JNum 2, ms_box_id = JStr ''box1'', ms_scheduled_time = 300,
       ms_is_taken = 1, ms_taken_time = Some 400\<rparr>,
      \<lparr>ms_id = JNum 3, ms_box_id = JStr ''box1'', ms_scheduled_time = 100,
       ms_is_taken = 0, ms_taken_time = None\<rparr>,
      \<lparr>ms_id = JNum 4, ms_box_id = JStr ''box2'', ms_scheduled_time = 200,
       ms_is_taken = 0, ms_taken_time = None\<rparr>]"
    "medication_schedule
      (db (snd (complete_handler (env_at 400) (body_complete 1) world_sched))) ! 0 =
     \<lparr>ms_id = JNum 1, ms_box_id = JStr ''box1'', ms_scheduled_time = 500,
      ms_is_taken = 1, ms_taken_time = Some 400\<rparr>"
    by (simp_all add: run_defs body_complete_def world_sched_def)
  note t2 = completion_without_validation[OF h(1) ok, unfolded sid]
  note t1 = completion_without_validation[OF h(2) ok, unfolded sid]
  note t99 = completion_without_validation[OF h(3) ok, unfolded sid]
  note t0 = completion_without_validation[OF h(4) ok, unfolded sid]
  from t2 have a2: "fst (complete_handler (env_at 400) (body_complete 2) world_sched) =
     Ack ''Medication marked as taken''"
    "\<exists>c. trace (snd (complete_handler (env_at 400) (body_complete 2) world_sched)) =
          trace world_sched @ [Acquire c, Query c (Update_complete (JNum 2)), Release c]"
    and w2: "\<forall>i<length ?rows. \<not> is_sql_null (JNum 2) \<and> ms_id (?rows ! i) = JNum 2 \<longrightarrow>
       medication_schedule
         (db (snd (complete_handler (env_at 400) (body_complete 2) world_sched))) ! i =
       (?rows ! i)\<lparr>ms_is_taken := 1, ms_taken_time := Some (now_at (env_at 400) 0)\<rparr>"
    by blast+
  from w2 idx have b2: "medication_schedule
         (db (snd (complete_handler (env_at 400) (body_complete 2) world_sched))) ! 1 =
       (?rows ! 1)\<lparr>ms_is_taken := 1, ms_taken_time := Some (now_at (env_at 400) 0)\<rparr>"
    by blast
  from t1 have w1: "\<forall>i<length ?rows. \<not> is_sql_null (JNum 1) \<and> ms_id (?rows ! i) = JNum 1 \<longrightarrow>
       medication_schedule
         (db (snd (complete_handler (env_at 400) (body_complete 1) world_sched))) ! i =
       (?rows ! i)\<lparr>ms_is_taken := 1, ms_taken_time := Some (now_at (env_at 400) 0)\<rparr>"
    by blast
  from w1 idx have b1: "medication_schedule
         (db (snd (complete_handler (env_at 400) (body_complete 1) world_sched))) ! 0 =
       (?rows ! 0)\<lparr>ms_is_taken := 1, ms_taken_time := Some (now_at (env_at 400) 0)\<rparr>"
    by blast
  from t99 have a99: "fst (complete_handler (env_at 400) (body_complete 99) world_sched) =
     Ack ''Medication marked as taken''"
    and n99: "\<forall>n. JNum 99 = JNum n \<and> (\<forall>row\<in>set ?rows. \<exists>m. ms_id row = JNum m \<and> m \<noteq> n) \<longrightarrow>
       db (snd (complete_handler (env_at 400) (body_complete 99) world_sched)) = db world_sched"
    by blast+
  from n99 others
  have b99: "db (snd (complete_handler (env_at 400) (body_complete 99) world_sched)) = db world_sched"
    by blast
  from t0 idx(7) have a0: "fst (complete_handler (env_at 400) (JObj []) world_sched) =
     Ack ''Medication marked as taken''"
    "db (snd (complete_handler (env_at 400) (JObj []) world_sched)) = db world_sched"
    by blast+
  from h ok rows(1) a2 b2 ev(1) b1 ev(2) rows(2) sid(3) a99 b99 sid(4) a0
  show ?thesis unfolding sid by (intro conjI)
qed

end
